theory Spec2Isabelle
  imports Main "HOL-Library.Sublist"
begin

section \<open>Go standard-library helpers used by \<open>display.go\<close>\<close>

text \<open>
  Go strings are byte sequences; they are modelled as \<^typ>\<open>string\<close> (a list of
  8-bit characters).  Go's \<open>int\<close> is taken to be 64 bits wide; the only place where
  the width matters in this file is the range check of \<open>strconv.Atoi\<close>.
\<close>

subsection \<open>\<open>strings\<close>\<close>

definition HasPrefix :: "string \<Rightarrow> string \<Rightarrow> bool" where
  "HasPrefix s p = prefix p s"

definition Contains :: "string \<Rightarrow> string \<Rightarrow> bool" where
  "Contains s sub = sublist sub s"

text \<open>
  \<open>strings.TrimSpace\<close> removes the runes for which \<open>unicode.IsSpace\<close> holds.  The
  UTF-8 encodings of these runes are listed here; an invalid byte decodes to
  \<open>U+FFFD\<close>, which is not a space.
\<close>

definition space_runes :: "string list" where
  "space_runes =
    [[CHR 0x09], [CHR 0x0A], [CHR 0x0B], [CHR 0x0C], [CHR 0x0D], [CHR 0x20],
     [CHR 0xC2, CHR 0x85], [CHR 0xC2, CHR 0xA0],
     [CHR 0xE1, CHR 0x9A, CHR 0x80],
     [CHR 0xE2, CHR 0x80, CHR 0x80], [CHR 0xE2, CHR 0x80, CHR 0x81],
     [CHR 0xE2, CHR 0x80, CHR 0x82], [CHR 0xE2, CHR 0x80, CHR 0x83],
     [CHR 0xE2, CHR 0x80, CHR 0x84], [CHR 0xE2, CHR 0x80, CHR 0x85],
     [CHR 0xE2, CHR 0x80, CHR 0x86], [CHR 0xE2, CHR 0x80, CHR 0x87],
     [CHR 0xE2, CHR 0x80, CHR 0x88], [CHR 0xE2, CHR 0x80, CHR 0x89],
     [CHR 0xE2, CHR 0x80, CHR 0x8A], [CHR 0xE2, CHR 0x80, CHR 0xA8],
     [CHR 0xE2, CHR 0x80, CHR 0xA9], [CHR 0xE2, CHR 0x80, CHR 0xAF],
     [CHR 0xE2, CHR 0x81, CHR 0x9F], [CHR 0xE3, CHR 0x80, CHR 0x80]]"

text \<open>The length of the space rune that starts \<open>s\<close>, or \<open>0\<close> when there is none.\<close>

definition leading_space :: "string \<Rightarrow> nat" where
  "leading_space s =
     (case filter (\<lambda>p. prefix p s) space_runes of [] \<Rightarrow> 0 | p # _ \<Rightarrow> length p)"

lemma leading_space_Nil: "leading_space [] = 0"
  by (simp add: leading_space_def space_runes_def)

function TrimLeftSpace :: "string \<Rightarrow> string" where
  "TrimLeftSpace s =
     (if leading_space s = 0 then s else TrimLeftSpace (drop (leading_space s) s))"
  by pat_completeness auto
termination
proof (relation "measure length")
  fix s :: string
  assume "leading_space s \<noteq> 0"
  then have "s \<noteq> []" using leading_space_Nil by auto
  with \<open>leading_space s \<noteq> 0\<close>
  show "(drop (leading_space s) s, s) \<in> measure length" by simp
qed simp

declare TrimLeftSpace.simps [simp del]

text \<open>The length of the space rune that ends \<open>s\<close>, or \<open>0\<close> when there is none.\<close>

definition trailing_space :: "string \<Rightarrow> nat" where
  "trailing_space s =
     (case filter (\<lambda>p. suffix p s) space_runes of [] \<Rightarrow> 0 | p # _ \<Rightarrow> length p)"

lemma trailing_space_Nil: "trailing_space [] = 0"
  by (simp add: trailing_space_def space_runes_def)

function TrimRightSpace :: "string \<Rightarrow> string" where
  "TrimRightSpace s =
     (if trailing_space s = 0 then s
      else TrimRightSpace (take (length s - trailing_space s) s))"
  by pat_completeness auto
termination
proof (relation "measure length")
  fix s :: string
  assume "trailing_space s \<noteq> 0"
  then have "s \<noteq> []" using trailing_space_Nil by auto
  with \<open>trailing_space s \<noteq> 0\<close>
  show "(take (length s - trailing_space s) s, s) \<in> measure length" by simp
qed simp

declare TrimRightSpace.simps [simp del]

definition TrimSpace :: "string \<Rightarrow> string" where
  "TrimSpace s = TrimRightSpace (TrimLeftSpace s)"

subsection \<open>\<open>strconv.Atoi\<close>\<close>

definition is_digit :: "char \<Rightarrow> bool" where
  "is_digit c = ((48::nat) \<le> of_char c \<and> (of_char c :: nat) \<le> 57)"

definition digit_val :: "char \<Rightarrow> int" where
  "digit_val c = int (of_char c :: nat) - 48"

definition digits_val :: "string \<Rightarrow> int" where
  "digits_val ds = foldl (\<lambda>n ch. n * 10 + digit_val ch) 0 ds"

text \<open>
  \<open>Atoi\<close> accepts an optional sign followed by at least one decimal digit and
  fails (\<open>ErrSyntax\<close>) on anything else; a value outside the 64-bit range fails
  with \<open>ErrRange\<close>.  Both failures are \<^const>\<open>None\<close>: the callers only test
  \<open>err != nil\<close>.
\<close>

definition Atoi :: "string \<Rightarrow> int option" where
  "Atoi s =
     (let neg = (s \<noteq> [] \<and> hd s = CHR ''-'');
          ds = (if s \<noteq> [] \<and> (hd s = CHR ''-'' \<or> hd s = CHR ''+'') then tl s else s)
      in if ds = [] \<or> \<not> list_all is_digit ds then None
         else let n = (if neg then - digits_val ds else digits_val ds)
              in if n < - (2 ^ 63) \<or> 2 ^ 63 - 1 < n then None else Some n)"

subsection \<open>\<open>path.Clean\<close>\<close>

text \<open>
  \<open>path.Clean\<close> scans the path with a read index and writes into an output buffer;
  \<open>dotdot\<close> is the length of the output prefix that a \<open>..\<close> element may not
  remove.  Here the unread part of the path is the argument \<open>rest\<close>.
\<close>

fun backtrack_w :: "string \<Rightarrow> nat \<Rightarrow> nat \<Rightarrow> nat" where
  "backtrack_w out dotdot w =
     (if dotdot < w \<and> out ! w \<noteq> CHR ''/'' then backtrack_w out dotdot (w - 1) else w)"

declare backtrack_w.simps [simp del]

definition backtrack :: "string \<Rightarrow> nat \<Rightarrow> string" where
  "backtrack out dotdot = take (backtrack_w out dotdot (length out - 1)) out"

function Clean_loop :: "bool \<Rightarrow> string \<Rightarrow> string \<Rightarrow> nat \<Rightarrow> string" where
  "Clean_loop rooted [] out dotdot = out"
| "Clean_loop rooted (c # cs) out dotdot =
     (if c = CHR ''/'' then Clean_loop rooted cs out dotdot
      else if c = CHR ''.'' \<and> (cs = [] \<or> hd cs = CHR ''/'') then
        Clean_loop rooted cs out dotdot
      else if c = CHR ''.'' \<and> hd cs = CHR ''.'' \<and> (tl cs = [] \<or> hd (tl cs) = CHR ''/'') then
        (if dotdot < length out then Clean_loop rooted (tl cs) (backtrack out dotdot) dotdot
         else if \<not> rooted then
           (let out' = (if out \<noteq> [] then out @ ''/'' else out) @ ''..''
            in Clean_loop rooted (tl cs) out' (length out'))
         else Clean_loop rooted (tl cs) out dotdot)
      else
        (let out' = (if rooted \<and> length out \<noteq> 1 \<or> \<not> rooted \<and> out \<noteq> []
                     then out @ ''/'' else out)
         in Clean_loop rooted (dropWhile (\<lambda>x. x \<noteq> CHR ''/'') cs)
              (out' @ c # takeWhile (\<lambda>x. x \<noteq> CHR ''/'') cs) dotdot))"
  by pat_completeness auto
termination
  by (relation "measure (\<lambda>(rooted, rest, out, dotdot). length rest)")
     (auto simp: less_Suc_eq_le length_dropWhile_le intro: le_trans [OF diff_le_self])

declare Clean_loop.simps [simp del]

definition path_Clean :: "string \<Rightarrow> string" where
  "path_Clean p =
     (if p = [] then ''.''
      else let rooted = (hd p = CHR ''/'');
               out = (if rooted then Clean_loop True p ''/'' 1 else Clean_loop False p [] 0)
           in if out = [] then ''.'' else out)"

subsection \<open>\<open>strconv.Itoa\<close> and \<open>string(rune)\<close>\<close>

fun nat_digits :: "nat \<Rightarrow> string" where
  "nat_digits n =
     (if n < 10 then [char_of (48 + n)] else nat_digits (n div 10) @ [char_of (48 + n mod 10)])"

declare nat_digits.simps [simp del]

definition Itoa :: "int \<Rightarrow> string" where
  "Itoa i = (if i < 0 then CHR ''-'' # nat_digits (nat (- i)) else nat_digits (nat i))"

text \<open>
  The conversion \<open>string(r)\<close> of a rune gives its UTF-8 encoding, and the encoding
  of \<open>U+FFFD\<close> for a value that is not a valid code point.
\<close>

definition utf8_encode :: "nat \<Rightarrow> string" where
  "utf8_encode r =
     (if r < 0x80 then [char_of r]
      else if r < 0x800 then [char_of (0xC0 + r div 64), char_of (0x80 + r mod 64)]
      else if r < 0x10000 then
        [char_of (0xE0 + r div 4096), char_of (0x80 + r div 64 mod 64), char_of (0x80 + r mod 64)]
      else [char_of (0xF0 + r div 262144), char_of (0x80 + r div 4096 mod 64),
            char_of (0x80 + r div 64 mod 64), char_of (0x80 + r mod 64)])"

definition string_of_rune :: "int \<Rightarrow> string" where
  "string_of_rune r =
     (if r < 0 \<or> 0x10FFFF < r \<or> (0xD800 \<le> r \<and> r \<le> 0xDFFF) then utf8_encode 0xFFFD
      else utf8_encode (nat r))"

section \<open>Data model\<close>

subsection \<open>Pages, tabs and URLs\<close>

text \<open>
  The types \<open>structs.Page\<close> and \<open>tab\<close> are declared outside \<open>display.go\<close>; the
  records below have the fields that \<open>display.go\<close> reads or writes.  A tab
  additionally owns its history, of which \<open>display.go\<close> writes \<open>pos\<close>.
\<close>

datatype mediatype = TextGemini | TextPlain

datatype page_mode = ModeOff | ModeLinkSelect

record page =
  Raw :: string
  Content :: string
  Links :: "string list"
  Url :: string
  Width :: int
  Mediatype :: mediatype
  Mode :: page_mode
  Selected :: string

datatype tab_mode = tabModeDone | tabModeLoading

record history =
  urls :: "string list"
  pos :: int

record tab =
  page :: page
  mode :: tab_mode
  history :: history

text \<open>The fields of \<open>net/url.URL\<close>.\<close>

record url =
  Scheme :: string
  Opaque :: string
  User :: "(string \<times> string option) option"
  Host :: string
  Path :: string
  RawPath :: string
  ForceQuery :: bool
  RawQuery :: string
  Fragment :: string

subsection \<open>Collaborators\<close>

text \<open>
  Functions that \<open>display.go\<close> calls and that compute a value are parameters of
  the model, collected in one record: the methods of \<open>net/url\<close>, the configuration
  (\<open>viper\<close>, \<open>config\<close>) and the helpers of the package that live in other files.
  \<open>url_Parse\<close> returns \<^const>\<open>None\<close> for an error, in which case Go returns a nil
  pointer.  \<open>url_ResolveReference\<close> is a method on a pointer that may be nil; it
  returns \<^const>\<open>None\<close> when it dereferences a nil receiver.  \<open>fetch\<close> is the
  fetcher of the spec: the page that loading a URL gives, an error being a page too.
\<close>

record env =
  hasContent :: "tab \<Rightarrow> bool"
  url_Parse :: "string \<Rightarrow> url option"
  url_String :: "url \<Rightarrow> string"
  url_ResolveReference :: "url option \<Rightarrow> url \<Rightarrow> url option"
  viper_GetString :: "string \<Rightarrow> string"
  viper_GetBool :: "string \<Rightarrow> bool"
  config_GetColorString :: "string \<Rightarrow> string"
  config_KeyToNum :: "int \<Rightarrow> int option"
  queryEscape :: "string \<Rightarrow> string"
  downloadPage :: "page \<Rightarrow> string + string"
  resolveRelLink :: "tab \<Rightarrow> string \<Rightarrow> string \<Rightarrow> string + string"
  makeNewTab :: tab
  fetch :: "string \<Rightarrow> page"

subsection \<open>Program state\<close>

text \<open>
  \<open>tabs\<close> is a slice of pointers; a pointer is an address into \<open>heap\<close>.  A
  \<open>FocusView\<close> is the text view of the tab at that address.  Calls that
  \<open>display.go\<close> makes for their effect on another component are recorded, in
  order, in \<open>trace\<close> (the newest call last); \<open>Go_goURL\<close> and the other
  \<open>Go_\<close> entries are goroutines started with \<open>go\<close>.
\<close>

type_synonym tab_ptr = nat

datatype go_panic = IndexOutOfRange | NilPointerDereference | DivideByZero

datatype focus =
    FocusButton | FocusBottomBar | FocusInputField | FocusModal
  | FocusView tab_ptr | FocusOther

datatype call =
    cache_RemovePage string
  | cache_RemoveFavicon string
  | Call_saveScroll tab_ptr
  | Call_saveBottomBar tab_ptr
  | Call_applyAll tab_ptr
  | Call_applyBottomBar tab_ptr
  | Call_addToHistory tab_ptr string
  | Call_setPage tab_ptr page
  | Call_followLink tab_ptr string string
  | Call_handleURL tab_ptr string
  | Call_reformatPageAndSetView tab_ptr page
  | Call_Bookmarks tab_ptr
  | Call_histBack tab_ptr
  | Call_histForward tab_ptr
  | Call_pageUp tab_ptr
  | Call_pageDown tab_ptr
  | Call_view_Highlight tab_ptr string
  | Call_Error string string
  | Call_Info string
  | Call_Help
  | Call_rewriteTabRow
  | tabPages_AddAndSwitchToPage string tab_ptr
  | tabPages_SwitchToPage string
  | tabPages_RemovePage string
  | tabRow_Fprintf string
  | tabRow_Highlight string
  | App_Draw
  | App_Stop
  | Go_goURL tab_ptr string
  | Go_addBookmark
  | Go_Reload tab_ptr "url option"
  | Go_reformat tab_ptr

record state =
  tabs :: "tab_ptr list"
  heap :: "tab_ptr \<Rightarrow> tab"
  next_ptr :: tab_ptr
  curTab :: int
  termW :: int
  termH :: int
  bar_label :: string
  bar_text :: string
  focus :: focus
  newTabPage :: page
  trace :: "call list"

definition emit :: "call \<Rightarrow> state \<Rightarrow> state" where
  "emit c s = s\<lparr>trace := trace s @ [c]\<rparr>"

text \<open>The goroutines \<open>goURL\<close> that a trace starts, in order.\<close>

definition fetches :: "call list \<Rightarrow> (tab_ptr \<times> string) list" where
  "fetches cs = concat (map (\<lambda>c. case c of Go_goURL t u \<Rightarrow> [(t, u)] | _ \<Rightarrow> []) cs)"

text \<open>The notices that a trace shows with \<open>Error\<close>, in order.\<close>

definition notices :: "call list \<Rightarrow> (string \<times> string) list" where
  "notices cs = concat (map (\<lambda>c. case c of Call_Error title msg \<Rightarrow> [(title, msg)] | _ \<Rightarrow> []) cs)"

definition NumTabs :: "state \<Rightarrow> int" where
  "NumTabs s = int (length (tabs s))"

text \<open>The slice access \<open>tabs[i]\<close>, which panics out of range.\<close>

definition tab_at :: "state \<Rightarrow> int \<Rightarrow> go_panic + tab_ptr" where
  "tab_at s i = (if 0 \<le> i \<and> i < NumTabs s then Inr (tabs s ! nat i) else Inl IndexOutOfRange)"

definition upd_tab :: "tab_ptr \<Rightarrow> (tab \<Rightarrow> tab) \<Rightarrow> state \<Rightarrow> state" where
  "upd_tab p f s = s\<lparr>heap := (heap s)(p := f (heap s p))\<rparr>"

text \<open>
  Modelled from the spec: \<open>setPage\<close> is not in \<open>display.go\<close>.  A tab replaces its
  page reference wholesale; the call is recorded as well.
\<close>

definition setPage :: "tab_ptr \<Rightarrow> page \<Rightarrow> state \<Rightarrow> state" where
  "setPage p pg s = emit (Call_setPage p pg) (upd_tab p (\<lambda>t. t\<lparr>page := pg\<rparr>) s)"

text \<open>Go's \<open>%\<close> on integers truncates towards zero; a zero divisor panics.\<close>

definition go_rem :: "int \<Rightarrow> int \<Rightarrow> int" where
  "go_rem a b = sgn a * (\<bar>a\<bar> mod \<bar>b\<bar>)"

subsection \<open>Fetches\<close>

text \<open>
  Modelled from the spec: the history of a tab is not in \<open>display.go\<close>.  Section
  4.1: \<open>append(url)\<close> drops all entries after \<open>position\<close> if \<open>position\<close> is below
  \<open>len(entries) - 1\<close>, appends the URL and sets \<open>position\<close> to \<open>len(entries) - 1\<close>.
\<close>

definition History_append :: "string \<Rightarrow> history \<Rightarrow> history" where
  "History_append u h =
     (let es = (if pos h < int (length (urls h)) - 1 then take (nat (pos h + 1)) (urls h)
                else urls h)
      in \<lparr>urls = es @ [u], pos = int (length (es @ [u])) - 1\<rparr>)"

text \<open>
  Modelled from the spec: \<open>handleURL\<close> is not in \<open>display.go\<close>.  Section 4.4: the
  completion of a fetch leaves the tab \<open>Done\<close> with the fetched page as its page, and
  a reload, which \<open>display.go\<close> runs through \<open>handleURL\<close> alone, appends no history
  entry.  So \<open>handleURL\<close> replaces the page of the tab it is given and nothing else
  of the tab.
\<close>

definition handleURL :: "env \<Rightarrow> tab \<Rightarrow> string \<Rightarrow> tab" where
  "handleURL env t u = t\<lparr>page := fetch env u, mode := tabModeDone\<rparr>"

section \<open>The operations of \<open>display.go\<close>\<close>

definition Stop :: "state \<Rightarrow> state" where
  "Stop s = emit App_Stop s"

subsection \<open>\<open>URL\<close>\<close>

definition URL :: "env \<Rightarrow> string \<Rightarrow> state \<Rightarrow> go_panic + state" where
  "URL env u s =
     (if u = ''about:bookmarks'' then
        (case tab_at s (curTab s) of
           Inl e \<Rightarrow> Inl e
         | Inr t \<Rightarrow>
             Inr (emit (Call_addToHistory t ''about:bookmarks'') (emit (Call_Bookmarks t) s)))
      else if u = ''about:newtab'' then
        (case tab_at s (curTab s) of
           Inl e \<Rightarrow> Inl e
         | Inr t \<Rightarrow> Inr (setPage t (newTabPage s) s))
      else if HasPrefix u ''about:'' then
        Inr (emit (Call_Error ''Error'' ''Not a valid 'about:' URL.'') s)
      else
        (case tab_at s (curTab s) of
           Inl e \<Rightarrow> Inl e
         | Inr t \<Rightarrow> Inr (emit (Go_goURL t u) s)))"

subsection \<open>\<open>NewTab\<close>\<close>

definition dq :: string where
  "dq = [CHR 0x22]"

text \<open>The text that \<open>NewTab\<close> writes to the tab row for the tab of index \<open>n\<close>.\<close>

definition tabRow_text :: "env \<Rightarrow> int \<Rightarrow> string" where
  "tabRow_text env n =
     (if viper_GetBool env ''a-general.color'' then
        ''['' @ dq @ Itoa n @ dq @ '']['' @ config_GetColorString env ''tab_num'' @ '']  ''
          @ Itoa (n + 1) @ ''  ['' @ config_GetColorString env ''tab_divider'' @ '']['' @ dq @ dq @ '']|''
      else ''['' @ dq @ Itoa n @ dq @ '']  '' @ Itoa (n + 1) @ ''  ['' @ dq @ dq @ '']|'')"

definition NewTab :: "env \<Rightarrow> state \<Rightarrow> go_panic + state" where
  "NewTab env s =
     (case (if -1 < curTab s then
              (case tab_at s (curTab s) of
                 Inl e \<Rightarrow> Inl e
               | Inr t \<Rightarrow>
                   Inr (emit (Call_saveScroll t)
                         (emit (Call_saveBottomBar t) (emit (Call_view_Highlight t []) s))))
            else Inr s) of
        Inl e \<Rightarrow> Inl e
      | Inr s1 \<Rightarrow>
          (let n = NumTabs s1;
               p = next_ptr s1;
               s2 = s1\<lparr>tabs := tabs s1 @ [p], heap := (heap s1)(p := makeNewTab env),
                      next_ptr := Suc p, curTab := n\<rparr>;
               s3 = setPage p (newTabPage s2) s2;
               s4 = upd_tab p (\<lambda>t. t\<lparr>history := (history t)\<lparr>pos := -1\<rparr>\<rparr>) s3;
               s5 = (emit (tabPages_AddAndSwitchToPage (Itoa n) p) s4)\<lparr>focus := FocusView p\<rparr>;
               s6 = emit (tabRow_Highlight (Itoa n)) (emit (tabRow_Fprintf (tabRow_text env n)) s5);
               s7 = emit (Call_saveBottomBar p) (s6\<lparr>bar_label := [], bar_text := []\<rparr>)
           in Inr (emit App_Draw s7)))"

subsection \<open>\<open>CloseTab\<close>\<close>

definition CloseTab :: "state \<Rightarrow> go_panic + state" where
  "CloseTab s =
     (if curTab s \<noteq> NumTabs s - 1 then Inr s
      else if NumTabs s \<le> 1 then Inr (Stop s)
      else
        (let s1 = s\<lparr>tabs := butlast (tabs s)\<rparr>;
             s2 = emit (tabPages_RemovePage (Itoa (curTab s1))) s1;
             s3 = s2\<lparr>curTab := (if curTab s2 \<le> 0 then NumTabs s2 - 1 else curTab s2 - 1)\<rparr>;
             s4 = emit Call_rewriteTabRow (emit (tabPages_SwitchToPage (Itoa (curTab s3))) s3)
         in case tab_at s4 (curTab s4) of
              Inl e \<Rightarrow> Inl e
            | Inr t \<Rightarrow> Inr (emit App_Draw ((emit (Call_applyAll t) s4)\<lparr>focus := FocusView t\<rparr>))))"

subsection \<open>\<open>SwitchTab\<close>\<close>

definition clamp_tab :: "int \<Rightarrow> state \<Rightarrow> int" where
  "clamp_tab n s =
     (let tab1 = (if n < 0 then 0 else n)
      in if NumTabs s - 1 < tab1 then NumTabs s - 1 else tab1)"

definition SwitchTab :: "int \<Rightarrow> state \<Rightarrow> go_panic + state" where
  "SwitchTab n s =
     (let tab2 = clamp_tab n s
      in case (if -1 < curTab s then
                 (case tab_at s (curTab s) of
                    Inl e \<Rightarrow> Inl e
                  | Inr t \<Rightarrow> Inr (emit (Call_saveScroll t) (emit (Call_saveBottomBar t) s)))
               else Inr s) of
           Inl e \<Rightarrow> Inl e
         | Inr s1 \<Rightarrow>
             (if NumTabs s1 = 0 then Inl DivideByZero
              else
                (let s2 = s1\<lparr>curTab := go_rem tab2 (NumTabs s1)\<rparr>
                 in case tab_at s2 (curTab s2) of
                      Inl e \<Rightarrow> Inl e
                    | Inr t \<Rightarrow>
                        (let s3 = emit (Call_reformatPageAndSetView t (page (heap s2 t))) s2;
                             s4 = emit (tabRow_Highlight (Itoa (curTab s3)))
                                    (emit (tabPages_SwitchToPage (Itoa (curTab s3))) s3);
                             s5 = (emit (Call_applyAll t) s4)\<lparr>focus := FocusView t\<rparr>
                         in Inr (emit App_Draw s5)))))"

subsection \<open>\<open>Reload\<close>\<close>

text \<open>
  \<open>Reload\<close> starts a goroutine that captures the current tab \<open>t\<close> and the parsed
  URL.  The goroutine blocks in \<open>handleURL\<close>, so it runs in two parts:
  \<open>Reload_go_fetch\<close> up to the call of \<open>handleURL\<close>, whose argument it returns, and
  \<open>Reload_go_done\<close> from the return of \<open>handleURL\<close> on, in the state of that later
  moment, where the tab first takes what \<open>handleURL\<close> made of it.  \<open>Reload_go\<close> is
  the goroutine running without interruption.
\<close>

definition Reload :: "env \<Rightarrow> state \<Rightarrow> go_panic + state" where
  "Reload env s =
     (case tab_at s (curTab s) of
        Inl e \<Rightarrow> Inl e
      | Inr t \<Rightarrow>
          (if \<not> hasContent env (heap s t) then Inr s
           else Inr (emit (Go_Reload t (url_Parse env (Url (page (heap s t))))) s)))"

definition Reload_go_fetch :: "tab_ptr \<Rightarrow> url option \<Rightarrow> state \<Rightarrow> go_panic + (string \<times> state)" where
  "Reload_go_fetch t parsed s =
     (case tab_at s (curTab s) of
        Inl e \<Rightarrow> Inl e
      | Inr c \<Rightarrow>
          (let s1 = emit (cache_RemovePage (Url (page (heap s c)))) s
           in case parsed of
                None \<Rightarrow> Inl NilPointerDereference
              | Some u \<Rightarrow>
                  (let s2 = emit (cache_RemoveFavicon (Host u)) s1;
                       arg = Url (page (heap s2 t))
                   in Inr (arg, emit (Call_handleURL t arg) s2))))"

definition Reload_go_done :: "env \<Rightarrow> tab_ptr \<Rightarrow> string \<Rightarrow> state \<Rightarrow> go_panic + state" where
  "Reload_go_done env t arg s =
     (let s1 = upd_tab t (\<lambda>x. handleURL env x arg) s
      in case tab_at s1 (curTab s1) of
           Inl e \<Rightarrow> Inl e
         | Inr c \<Rightarrow> (if t = c then Inr (emit (Call_applyBottomBar t) s1) else Inr s1))"

definition Reload_go :: "env \<Rightarrow> tab_ptr \<Rightarrow> url option \<Rightarrow> state \<Rightarrow> go_panic + state" where
  "Reload_go env t parsed s =
     (case Reload_go_fetch t parsed s of
        Inl e \<Rightarrow> Inl e
      | Inr (arg, s1) \<Rightarrow> Reload_go_done env t arg s1)"

subsection \<open>The goroutine \<open>goURL\<close>\<close>

text \<open>
  Modelled from the spec: \<open>goURL\<close>, which \<open>URL\<close> starts, is not in \<open>display.go\<close>.
  Sections 2 and 4.4: a navigation fetches the URL, replaces the page of the owning
  tab and appends the URL to its history; the input bar is restored only if the
  owning tab is still the visible one.  \<open>goURL_done\<close> is the goroutine from the
  completion of the fetch on, in the state of that moment.
\<close>

definition goURL_done :: "env \<Rightarrow> tab_ptr \<Rightarrow> string \<Rightarrow> state \<Rightarrow> go_panic + state" where
  "goURL_done env t u s =
     (let s1 = upd_tab t (\<lambda>x. handleURL env x u) s;
          s2 = upd_tab t (\<lambda>x. x\<lparr>history := History_append u (history x)\<rparr>) s1
      in case tab_at s2 (curTab s2) of
           Inl e \<Rightarrow> Inl e
         | Inr c \<Rightarrow> (if t = c then Inr (emit (Call_applyBottomBar t) s2) else Inr s2))"

subsection \<open>The \<open>SetAfterResizeFunc\<close> callback\<close>

text \<open>
  The callback stores the terminal size and starts, for the current tab, a goroutine
  that takes the tab's \<open>reformatMu\<close> and reformats the tab's page.
\<close>

definition AfterResizeFunc :: "int \<Rightarrow> int \<Rightarrow> state \<Rightarrow> go_panic + state" where
  "AfterResizeFunc width height s =
     (let s1 = s\<lparr>termW := width, termH := height\<rparr>
      in case tab_at s1 (curTab s1) of
           Inl e \<Rightarrow> Inl e
         | Inr t \<Rightarrow> Inr (emit (Go_reformat t) s1))"

text \<open>
  The body of that goroutine, between \<open>Lock\<close> and the deferred \<open>Unlock\<close> of the
  tab's \<open>reformatMu\<close>: it reformats the page that the tab holds when the goroutine
  runs.
\<close>

definition reformat_go :: "tab_ptr \<Rightarrow> state \<Rightarrow> state" where
  "reformat_go t s = emit (Call_reformatPageAndSetView t (page (heap s t))) s"

subsection \<open>The \<open>bottomBar.SetDoneFunc\<close> callback\<close>

datatype key =
    KeyRune | KeyEnter | KeyEsc | KeyTab | KeyBacktab | KeyLeft | KeyRight
  | KeyPgUp | KeyPgDn | KeyCtrlB | KeyCtrlC | KeyCtrlD | KeyCtrlH | KeyCtrlQ
  | KeyCtrlR | KeyCtrlS | KeyCtrlT | KeyCtrlW | KeyOther

text \<open>The closure \<open>reset\<close>; \<open>tab\<close> is the index captured when the callback started.\<close>

definition reset :: "int \<Rightarrow> state \<Rightarrow> go_panic + state" where
  "reset tab s =
     (case tab_at s tab of
        Inl e \<Rightarrow> Inl e
      | Inr t \<Rightarrow> Inr ((emit (Call_applyAll t) (s\<lparr>bar_label := []\<rparr>))\<lparr>focus := FocusView t\<rparr>))"

text \<open>The slice access \<open>Links[i-1]\<close>.\<close>

definition link_at :: "string list \<Rightarrow> int \<Rightarrow> go_panic + string" where
  "link_at links i =
     (if 0 \<le> i - 1 \<and> i - 1 < int (length links) then Inr (links ! nat (i - 1))
      else Inl IndexOutOfRange)"

text \<open>Lines 193 to 200: follow link \<open>i\<close> of the tab, or reset.\<close>

definition follow_or_reset :: "int \<Rightarrow> int \<Rightarrow> state \<Rightarrow> go_panic + state" where
  "follow_or_reset tab i s =
     (case tab_at s tab of
        Inl e \<Rightarrow> Inl e
      | Inr t \<Rightarrow>
          (if i \<le> int (length (Links (page (heap s t)))) \<and> 0 < i then
             (case link_at (Links (page (heap s t))) i of
                Inl e \<Rightarrow> Inl e
              | Inr l \<Rightarrow> Inr (emit (Call_followLink t (Url (page (heap s t))) l) s))
           else reset tab s))"

text \<open>Lines 130 to 152: the command \<open>..\<close> on a tab with content.\<close>

definition parent_path :: "string \<Rightarrow> string" where
  "parent_path p =
     (let p1 = path_Clean (p @ ''/..'') @ ''/'' in if p1 = ''//'' then ''/'' else p1)"

definition go_up :: "env \<Rightarrow> int \<Rightarrow> state \<Rightarrow> go_panic + state" where
  "go_up env tab s =
     (case tab_at s tab of
        Inl e \<Rightarrow> Inl e
      | Inr t \<Rightarrow>
          (case url_Parse env (Url (page (heap s t))) of
             None \<Rightarrow> Inr s
           | Some parsed \<Rightarrow>
               (if Path parsed = ''/'' then reset tab s
                else URL env (url_String env (parsed\<lparr>Path := parent_path (Path parsed),
                                                       RawQuery := []\<rparr>)) s)))"

text \<open>Lines 164 to 176: open link \<open>i\<close> of the tab in a new tab.\<close>

definition open_in_new_tab :: "env \<Rightarrow> int \<Rightarrow> int \<Rightarrow> state \<Rightarrow> go_panic + state" where
  "open_in_new_tab env tab i s =
     (case NewTab env s of
        Inl e \<Rightarrow> Inl e
      | Inr s1 \<Rightarrow>
          (case tab_at s1 tab of
             Inl e \<Rightarrow> Inl e
           | Inr old \<Rightarrow>
               (let prevParsed = url_Parse env (Url (page (heap s1 old)))
                in case link_at (Links (page (heap s1 old))) i of
                     Inl e \<Rightarrow> Inl e
                   | Inr l \<Rightarrow>
                       (case url_Parse env l of
                          None \<Rightarrow>
                            reset tab
                              (emit (Call_Error ''URL Error'' ''link URL could not be parsed'') s1)
                        | Some nextParsed \<Rightarrow>
                            (case url_ResolveReference env prevParsed nextParsed of
                               None \<Rightarrow> Inl NilPointerDereference
                             | Some r \<Rightarrow> URL env (url_String env r) s1)))))"

text \<open>Lines 181 to 189: a search or a full URL.\<close>

definition is_search :: "string \<Rightarrow> bool" where
  "is_search query =
     (Contains query '' '' \<or>
      (\<not> Contains query ''//'' \<and> \<not> Contains query ''.'' \<and> \<not> HasPrefix query ''about:''))"

definition search_or_url :: "env \<Rightarrow> string \<Rightarrow> state \<Rightarrow> go_panic + state" where
  "search_or_url env query s =
     (if is_search query then
        (let u = viper_GetString env ''a-general.search'' @ ''?'' @ queryEscape env query
         in URL env u (emit (cache_RemovePage u) s))
      else URL env query (emit (cache_RemovePage query) s))"

definition DoneFunc_Enter :: "env \<Rightarrow> int \<Rightarrow> state \<Rightarrow> go_panic + state" where
  "DoneFunc_Enter env tab s =
     (let query = bar_text s
      in if TrimSpace query = [] then reset tab s
         else
           (case tab_at s tab of
              Inl e \<Rightarrow> Inl e
            | Inr t \<Rightarrow>
                (if query = ''..'' \<and> hasContent env (heap s t) then go_up env tab s
                 else
                   (case Atoi query of
                      Some i \<Rightarrow> follow_or_reset tab i s
                    | None \<Rightarrow>
                        (if HasPrefix query ''new:'' \<and> 4 < length query then
                           (case Atoi (drop 4 query) of
                              None \<Rightarrow> reset tab s
                            | Some i \<Rightarrow>
                                (if i \<le> int (length (Links (page (heap s t)))) \<and> 0 < i
                                 then open_in_new_tab env tab i s
                                 else follow_or_reset tab i s))
                         else search_or_url env query s)))))"

definition DoneFunc :: "env \<Rightarrow> key \<Rightarrow> state \<Rightarrow> go_panic + state" where
  "DoneFunc env k s =
     (let tab = curTab s
      in case tab_at s tab of
           Inl e \<Rightarrow> Inl e
         | Inr t \<Rightarrow>
             (let s1 = emit (Call_saveScroll t) s
              in if k = KeyEnter then DoneFunc_Enter env tab s1
                 else if k = KeyEsc then reset tab s1
                 else Inr s1))"

subsection \<open>The \<open>App.SetInputCapture\<close> callback\<close>

text \<open>
  A key event has a key, a rune and a modifier mask, in which \<open>ModAlt\<close> is the bit
  of value 4.  The callback returns the event to let another element handle it, or
  nil when it has handled it.
\<close>

record event_key =
  ev_Key :: key
  ev_Rune :: int
  ev_Modifiers :: nat

definition ModAlt :: nat where
  "ModAlt = 4"

text \<open>
  The keys that work only while the tab is not loading (lines 245 to 328).  The
  result is \<^const>\<open>None\<close> when control leaves the block without returning.
\<close>

definition number_key :: "tab_ptr \<Rightarrow> string \<Rightarrow> state \<Rightarrow> (go_panic + state) option" where
  "number_key t r s =
     (case Atoi r of
        None \<Rightarrow> None
      | Some i0 \<Rightarrow>
          (let i = (if i0 = 0 then 10 else i0)
           in if i \<le> int (length (Links (page (heap s t)))) \<and> 0 < i then
                Some (case link_at (Links (page (heap s t))) i of
                        Inl e \<Rightarrow> Inl e
                      | Inr l \<Rightarrow> Inr (emit (Call_followLink t (Url (page (heap s t))) l) s))
              else None))"

definition rune_key :: "env \<Rightarrow> tab_ptr \<Rightarrow> string \<Rightarrow> state \<Rightarrow> (go_panic + state) option" where
  "rune_key env t r s =
     (if r = '' '' then
        Some (Inr (s\<lparr>bar_label := ''[::b]URL/Num./Search: [::-]'', bar_text := [],
                     focus := FocusBottomBar\<rparr>))
      else if r = ''R'' then Some (Reload env s)
      else if r = ''b'' then Some (Inr (emit (Call_histBack t) s))
      else if r = ''f'' then Some (Inr (emit (Call_histForward t) s))
      else if r = ''u'' then Some (Inr (emit (Call_pageUp t) s))
      else if r = ''d'' then Some (Inr (emit (Call_pageDown t) s))
      else number_key t r s)"

definition save_page :: "env \<Rightarrow> tab_ptr \<Rightarrow> state \<Rightarrow> state" where
  "save_page env t s =
     (if hasContent env (heap s t) then
        (case downloadPage env (page (heap s t)) of
           Inl err \<Rightarrow> emit (Call_Error ''Download Error'' (''Error saving page content: '' @ err)) s
         | Inr savePath \<Rightarrow> emit (Call_Info (''Page content saved to '' @ savePath @ ''. '')) s)
      else emit (Call_Info ''The current page has no content, so it couldn't be downloaded.'') s)"

definition done_keys :: "env \<Rightarrow> event_key \<Rightarrow> tab_ptr \<Rightarrow> state \<Rightarrow> (go_panic + state) option" where
  "done_keys env ev t s =
     (if ev_Modifiers ev = ModAlt \<and> ev_Key ev = KeyLeft then Some (Inr (emit (Call_histBack t) s))
      else if ev_Modifiers ev = ModAlt \<and> ev_Key ev = KeyRight then
        Some (Inr (emit (Call_histForward t) s))
      else
        (case ev_Key ev of
           KeyCtrlR \<Rightarrow> Some (Reload env s)
         | KeyCtrlH \<Rightarrow> Some (URL env (viper_GetString env ''a-general.home'') s)
         | KeyCtrlB \<Rightarrow>
             Some (Inr (emit (Call_addToHistory t ''about:bookmarks'') (emit (Call_Bookmarks t) s)))
         | KeyCtrlD \<Rightarrow> Some (Inr (emit Go_addBookmark s))
         | KeyPgUp \<Rightarrow> Some (Inr (emit (Call_pageUp t) s))
         | KeyPgDn \<Rightarrow> Some (Inr (emit (Call_pageDown t) s))
         | KeyCtrlS \<Rightarrow> Some (Inr (save_page env t s))
         | KeyRune \<Rightarrow> rune_key env t (string_of_rune (ev_Rune ev)) s
         | _ \<Rightarrow> None))"

text \<open>
  The keys that also work while the tab is loading (lines 332 to 380).  The first
  component of the result is the returned event.
\<close>

definition handled :: "go_panic + state \<Rightarrow> go_panic + (event_key option \<times> state)" where
  "handled r = (case r of Inl e \<Rightarrow> Inl e | Inr s \<Rightarrow> Inr (None, s))"

definition new_tab_key :: "env \<Rightarrow> tab_ptr \<Rightarrow> state \<Rightarrow> go_panic + state" where
  "new_tab_key env t s =
     (if Mode (page (heap s t)) = ModeLinkSelect then
        (case resolveRelLink env (heap s t) (Url (page (heap s t))) (Selected (page (heap s t))) of
           Inl err \<Rightarrow> Inr (emit (Call_Error ''URL Error'' err) s)
         | Inr next \<Rightarrow>
             (case NewTab env s of Inl e \<Rightarrow> Inl e | Inr s1 \<Rightarrow> URL env next s1))
      else NewTab env s)"

definition loading_keys :: "env \<Rightarrow> event_key \<Rightarrow> tab_ptr \<Rightarrow> state \<Rightarrow> go_panic + (event_key option \<times> state)" where
  "loading_keys env ev t s =
     (case ev_Key ev of
        KeyCtrlT \<Rightarrow> handled (new_tab_key env t s)
      | KeyCtrlW \<Rightarrow> handled (CloseTab s)
      | KeyCtrlQ \<Rightarrow> handled (Inr (Stop s))
      | KeyCtrlC \<Rightarrow> handled (Inr (Stop s))
      | KeyRune \<Rightarrow>
          (case config_KeyToNum env (ev_Rune ev) of
             Some num \<Rightarrow>
               handled (if num = 0 then SwitchTab (NumTabs s - 1) s else SwitchTab (num - 1) s)
           | None \<Rightarrow>
               (if string_of_rune (ev_Rune ev) = ''q'' then handled (Inr (Stop s))
                else if string_of_rune (ev_Rune ev) = ''?'' then handled (Inr (emit Call_Help s))
                else Inr (Some ev, s)))
      | _ \<Rightarrow> Inr (Some ev, s))"

definition InputCapture :: "env \<Rightarrow> event_key \<Rightarrow> state \<Rightarrow> go_panic + (event_key option \<times> state)" where
  "InputCapture env ev s =
     (if focus s = FocusButton then Inr (Some ev, s)
      else if focus s = FocusBottomBar \<or> focus s = FocusInputField then Inr (Some ev, s)
      else if focus s = FocusModal then Inr (Some ev, s)
      else
        (case tab_at s (curTab s) of
           Inl e \<Rightarrow> Inl e
         | Inr t \<Rightarrow>
             (case (if mode (heap s t) = tabModeDone then done_keys env ev t s else None) of
                Some r \<Rightarrow> handled r
              | None \<Rightarrow> loading_keys env ev t s)))"

section \<open>An example environment\<close>

text \<open>
  The operations are run on concrete inputs in the environment \<open>ex_env\<close>.  Its URL
  functions follow \<open>net/url\<close> for URLs without fragment, percent escapes and user
  information: \<open>ex_Parse\<close> rejects a string that holds an ASCII control byte, that
  starts with a colon, or that has no scheme and a colon in its first path segment;
  it does not check the host.
\<close>

definition is_ctl :: "char \<Rightarrow> bool" where
  "is_ctl c = ((of_char c :: nat) < 0x20 \<or> (of_char c :: nat) = 0x7F)"

definition is_alpha :: "char \<Rightarrow> bool" where
  "is_alpha c =
     ((97 \<le> (of_char c :: nat) \<and> (of_char c :: nat) \<le> 122)
      \<or> (65 \<le> (of_char c :: nat) \<and> (of_char c :: nat) \<le> 90))"

definition to_lower :: "char \<Rightarrow> char" where
  "to_lower c =
     (if 65 \<le> (of_char c :: nat) \<and> (of_char c :: nat) \<le> 90 then char_of ((of_char c :: nat) + 32)
      else c)"

text \<open>\<open>getScheme\<close>: the scheme and the rest, or an error for a leading colon.\<close>

fun getScheme_loop :: "nat \<Rightarrow> string \<Rightarrow> string \<Rightarrow> (string \<times> string) option" where
  "getScheme_loop i [] raw = Some ([], raw)"
| "getScheme_loop i (c # cs) raw =
     (if is_alpha c then getScheme_loop (Suc i) cs raw
      else if is_digit c \<or> c = CHR ''+'' \<or> c = CHR ''-'' \<or> c = CHR ''.'' then
        (if i = 0 then Some ([], raw) else getScheme_loop (Suc i) cs raw)
      else if c = CHR '':'' then (if i = 0 then None else Some (take i raw, cs))
      else Some ([], raw))"

definition split_at :: "char \<Rightarrow> string \<Rightarrow> string \<times> string" where
  "split_at c s =
     (takeWhile (\<lambda>x. x \<noteq> c) s, drop 1 (dropWhile (\<lambda>x. x \<noteq> c) s))"

definition empty_url :: url where
  "empty_url =
     \<lparr>Scheme = [], Opaque = [], User = None, Host = [], Path = [], RawPath = [],
      ForceQuery = False, RawQuery = [], Fragment = []\<rparr>"

definition ex_Parse :: "string \<Rightarrow> url option" where
  "ex_Parse raw =
     (if list_ex is_ctl raw then None
      else if raw = ''*'' then Some (empty_url\<lparr>Path := ''*''\<rparr>)
      else
        (case getScheme_loop 0 raw raw of
           None \<Rightarrow> None
         | Some (sch, rest0) \<Rightarrow>
             (let force = (rest0 \<noteq> [] \<and> last rest0 = CHR ''?''
                           \<and> length (filter (\<lambda>x. x = CHR ''?'') rest0) = 1);
                  (rest, q) = (if force then (butlast rest0, []) else split_at CHR ''?'' rest0);
                  u = empty_url\<lparr>Scheme := map to_lower sch, ForceQuery := force, RawQuery := q\<rparr>
              in if \<not> HasPrefix rest ''/'' \<and> sch \<noteq> [] then Some (u\<lparr>Opaque := rest\<rparr>)
                 else if \<not> HasPrefix rest ''/''
                     \<and> CHR '':'' \<in> set (takeWhile (\<lambda>x. x \<noteq> CHR ''/'') rest) then None
                 else if (sch \<noteq> [] \<or> \<not> HasPrefix rest ''///'') \<and> HasPrefix rest ''//'' then
                   Some (u\<lparr>Host := takeWhile (\<lambda>x. x \<noteq> CHR ''/'') (drop 2 rest),
                           Path := dropWhile (\<lambda>x. x \<noteq> CHR ''/'') (drop 2 rest)\<rparr>)
                 else Some (u\<lparr>Path := rest\<rparr>))))"

definition ex_String :: "url \<Rightarrow> string" where
  "ex_String u =
     (let b1 = (if Scheme u = [] then [] else Scheme u @ '':'');
          b2 = (if Opaque u \<noteq> [] then b1 @ Opaque u
                else
                  (let b3 = (if Scheme u \<noteq> [] \<or> Host u \<noteq> [] then
                               b1 @ (if Host u \<noteq> [] \<or> Path u \<noteq> [] then ''//'' else []) @ Host u
                             else b1);
                       b4 = (if Path u \<noteq> [] \<and> hd (Path u) \<noteq> CHR ''/'' \<and> Host u \<noteq> []
                             then b3 @ ''/'' else b3);
                       b5 = (if b4 = [] \<and> CHR '':'' \<in> set (takeWhile (\<lambda>x. x \<noteq> CHR ''/'') (Path u))
                             then ''./'' else b4)
                   in b5 @ Path u))
      in if ForceQuery u \<or> RawQuery u \<noteq> [] then b2 @ ''?'' @ RawQuery u else b2)"

text \<open>\<open>strings.Split(s, "/")\<close> and \<open>strings.Join(xs, "/")\<close>.\<close>

fun split_slash :: "string \<Rightarrow> string list" where
  "split_slash [] = [[]]"
| "split_slash (c # cs) =
     (if c = CHR ''/'' then [] # split_slash cs
      else (case split_slash cs of [] \<Rightarrow> [[c]] | x # xs \<Rightarrow> (c # x) # xs))"

fun join_slash :: "string list \<Rightarrow> string" where
  "join_slash [] = []"
| "join_slash [x] = x"
| "join_slash (x # y # ys) = x @ ''/'' @ join_slash (y # ys)"

definition resolvePath :: "string \<Rightarrow> string \<Rightarrow> string" where
  "resolvePath base ref =
     (let full = (if ref = [] then base
                  else if hd ref \<noteq> CHR ''/'' then
                    rev (dropWhile (\<lambda>x. x \<noteq> CHR ''/'') (rev base)) @ ref
                  else ref)
      in if full = [] then []
         else
           (let src = split_slash full;
                dst = foldl (\<lambda>d elem. if elem = ''.'' then d
                                       else if elem = ''..'' then butlast d
                                       else d @ [elem]) [] src;
                dst' = (if last src = ''.'' \<or> last src = ''..'' then dst @ [[]] else dst);
                j = join_slash dst'
            in CHR ''/'' # (if HasPrefix j ''/'' then drop 1 j else j)))"

definition ex_ResolveReference :: "url option \<Rightarrow> url \<Rightarrow> url option" where
  "ex_ResolveReference base ref =
     (if Scheme ref \<noteq> [] then Some (ref\<lparr>Path := resolvePath (Path ref) []\<rparr>)
      else
        (case base of
           None \<Rightarrow> None
         | Some b \<Rightarrow>
             (let u = ref\<lparr>Scheme := Scheme b\<rparr>
              in if Host ref \<noteq> [] \<or> User ref \<noteq> None then
                   Some (u\<lparr>Path := resolvePath (Path ref) []\<rparr>)
                 else if Opaque ref \<noteq> [] then Some (u\<lparr>User := None, Host := [], Path := []\<rparr>)
                 else
                   (let u1 = (if Path ref = [] \<and> RawQuery ref = [] then
                                u\<lparr>RawQuery := RawQuery b,
                                  Fragment := (if Fragment ref = [] then Fragment b else Fragment u)\<rparr>
                              else u)
                    in Some (u1\<lparr>Host := Host b, User := User b,
                               Path := resolvePath (Path b) (Path ref)\<rparr>)))))"

definition ex_url :: "string \<Rightarrow> url" where
  "ex_url p = \<lparr>Scheme = ''gemini'', Opaque = [], User = None, Host = ''host'', Path = p,
      RawPath = [], ForceQuery = False, RawQuery = [], Fragment = []\<rparr>"

definition ex_hasContent :: "tab \<Rightarrow> bool" where
  "ex_hasContent t =
     (Url (page t) \<noteq> [] \<and> \<not> HasPrefix (Url (page t)) ''about:'' \<and> Content (page t) \<noteq> [])"

definition ex_page :: "string \<Rightarrow> string list \<Rightarrow> page" where
  "ex_page u ls =
     \<lparr>Raw = ''# page'', Content = ''page'', Links = ls, Url = u, Width = 80,
      Mediatype = TextGemini, Mode = ModeOff, Selected = []\<rparr>"

definition ex_tab :: "string \<Rightarrow> string list \<Rightarrow> tab" where
  "ex_tab u ls = \<lparr>page = ex_page u ls, mode = tabModeDone, history = \<lparr>urls = [u], pos = 0\<rparr>\<rparr>"

definition ex_env :: env where
  "ex_env =
     \<lparr>hasContent = ex_hasContent, url_Parse = ex_Parse, url_String = ex_String,
      url_ResolveReference = ex_ResolveReference,
      viper_GetString = (\<lambda>k. if k = ''a-general.search'' then ''gemini://gus.guru/search''
                              else if k = ''a-general.home'' then ''gemini://gemini.circumlunar.space''
                              else []),
      viper_GetBool = (\<lambda>k. False),
      config_GetColorString = (\<lambda>k. []),
      config_KeyToNum = (\<lambda>r. if r = 0x21 then Some 1 else if r = 0x40 then Some 2
                              else if r = 0x29 then Some 0 else None),
      queryEscape = (\<lambda>q. concat (map (\<lambda>c. if c = CHR '' '' then ''%20'' else [c]) q)),
      downloadPage = (\<lambda>p. Inr ''/tmp/page.gmi''),
      resolveRelLink = (\<lambda>t prev next. Inr next),
      makeNewTab = ex_tab [] [],
      fetch = (\<lambda>u. (ex_page u [''next''])\<lparr>Content := ''fetched''\<rparr>)\<rparr>"

text \<open>
  A session with the tabs at addresses \<open>0 .. length ts - 1\<close>, of which tab \<open>cur\<close>
  is visible and the bottom bar holds \<open>txt\<close>.
\<close>

definition ex_state :: "tab list \<Rightarrow> int \<Rightarrow> string \<Rightarrow> state" where
  "ex_state ts cur txt =
     \<lparr>tabs = [0 ..< length ts], heap = (\<lambda>p. if p < length ts then ts ! p else ex_tab [] []),
      next_ptr = length ts, curTab = cur, termW = 80, termH = 24,
      bar_label = ''[::b]URL/Num./Search: [::-]'', bar_text = txt, focus = FocusBottomBar,
      newTabPage = ex_page ''about:newtab'' [], trace = []\<rparr>"

text \<open>The same session with the focus on the text view of the current tab.\<close>

definition ex_view_state :: "tab list \<Rightarrow> int \<Rightarrow> state" where
  "ex_view_state ts cur = (ex_state ts cur [])\<lparr>bar_label := [], focus := FocusView (nat cur)\<rparr>"

section \<open>Properties\<close>

subsection \<open>Basic facts\<close>

lemma tab_at_Inr:
  "0 \<le> i \<Longrightarrow> i < NumTabs s \<Longrightarrow> tab_at s i = Inr (tabs s ! nat i)"
  by (simp add: tab_at_def)

lemma NumTabs_emit [simp]: "NumTabs (emit c s) = NumTabs s"
  by (simp add: NumTabs_def emit_def)

lemma curTab_emit [simp]: "curTab (emit c s) = curTab s"
  by (simp add: emit_def)

lemma tabs_emit [simp]: "tabs (emit c s) = tabs s"
  by (simp add: emit_def)

lemma heap_emit [simp]: "heap (emit c s) = heap s"
  by (simp add: emit_def)

lemma trace_emit [simp]: "trace (emit c s) = trace s @ [c]"
  by (simp add: emit_def)

lemma bar_emit [simp]: "bar_label (emit c s) = bar_label s" "bar_text (emit c s) = bar_text s"
  by (simp_all add: emit_def)

lemma focus_emit [simp]: "focus (emit c s) = focus s"
  by (simp add: emit_def)

lemma next_ptr_emit [simp]: "next_ptr (emit c s) = next_ptr s"
  by (simp add: emit_def)

lemma tab_at_emit [simp]: "tab_at (emit c s) i = tab_at s i"
  by (simp add: tab_at_def)

lemma go_rem_small: "0 \<le> a \<Longrightarrow> a < b \<Longrightarrow> go_rem a b = a"
  by (cases "a = 0") (simp_all add: go_rem_def)

subsection \<open>\<open>SwitchTab\<close>\<close>

lemma clamp_tab_range:
  assumes "1 \<le> NumTabs s"
  shows "0 \<le> clamp_tab n s" and "clamp_tab n s < NumTabs s"
    and "clamp_tab n s = min (max n 0) (NumTabs s - 1)"
  using assms by (auto simp: clamp_tab_def Let_def)

text \<open>
  Claim C4.  In a session with at least one tab whose current index is below the
  number of tabs, \<open>SwitchTab n\<close> returns for every integer \<open>n\<close>, without a panic.  The
  new current index is \<open>n\<close> clamped into \<open>[0, tabCount - 1]\<close> and then reduced modulo
  \<open>tabCount\<close>; it is a valid index, and the tabs are the same as before.
\<close>

theorem SwitchTab_lands_on_valid_tab:
  assumes "1 \<le> NumTabs s" and "curTab s < NumTabs s"
  shows "\<exists>s'. SwitchTab n s = Inr s'
           \<and> curTab s' = go_rem (min (max n 0) (NumTabs s - 1)) (NumTabs s)
           \<and> curTab s' = min (max n 0) (NumTabs s - 1)
           \<and> 0 \<le> curTab s' \<and> curTab s' < NumTabs s' \<and> tabs s' = tabs s"
proof -
  let ?c = "clamp_tab n s"
  have c: "0 \<le> ?c" "?c < NumTabs s" "?c = min (max n 0) (NumTabs s - 1)"
    using clamp_tab_range [OF assms(1)] by auto
  have rem: "go_rem ?c (NumTabs s) = ?c"
    using c by (simp add: go_rem_small)
  have old: "-1 < curTab s \<Longrightarrow> tab_at s (curTab s) = Inr (tabs s ! nat (curTab s))"
    using assms(2) by (simp add: tab_at_Inr)
  have new: "\<And>s0. NumTabs s0 = NumTabs s \<Longrightarrow> tabs s0 = tabs s \<Longrightarrow>
      tab_at (s0\<lparr>curTab := ?c\<rparr>) ?c = Inr (tabs s ! nat ?c)"
    using c by (simp add: tab_at_def NumTabs_def)
  show ?thesis
  proof (cases "-1 < curTab s")
    case True
    then show ?thesis
      using assms(1) c rem old new [of "emit (Call_saveScroll (tabs s ! nat (curTab s)))
          (emit (Call_saveBottomBar (tabs s ! nat (curTab s))) s)"]
      by (simp add: SwitchTab_def Let_def NumTabs_def)
  next
    case False
    then show ?thesis
      using assms(1) c rem new [of s]
      by (simp add: SwitchTab_def Let_def NumTabs_def)
  qed
qed

theorem SwitchTab_lands_on_valid_tab_witness:
  "(\<exists>s'. SwitchTab (0 - 1) (ex_view_state [ex_tab ''a'' [], ex_tab ''b'' [], ex_tab ''c'' []] 0) = Inr s'
       \<and> curTab s' = 0)
   \<and> (\<exists>s'. SwitchTab (0 + 1) (ex_view_state [ex_tab ''a'' [], ex_tab ''b'' [], ex_tab ''c'' []] 0) = Inr s'
       \<and> curTab s' = 1)
   \<and> (\<exists>s'. SwitchTab (go_rem (0 - 1 + 3) 3)
              (ex_view_state [ex_tab ''a'' [], ex_tab ''b'' [], ex_tab ''c'' []] 0) = Inr s'
       \<and> curTab s' = 2)
   \<and> (\<exists>s'. SwitchTab (3 + 5) (ex_view_state [ex_tab ''a'' [], ex_tab ''b'' [], ex_tab ''c'' []] 0) = Inr s'
       \<and> curTab s' = 2)"
proof -
  let ?s = "ex_view_state [ex_tab ''a'' [], ex_tab ''b'' [], ex_tab ''c'' []] 0"
  have n: "1 \<le> NumTabs ?s" and c: "curTab ?s < NumTabs ?s" and k: "NumTabs ?s = 3"
    by (simp_all add: NumTabs_def ex_state_def ex_view_state_def)
  have r: "go_rem (0 - 1 + 3) 3 = 2"
    by (simp add: go_rem_def)
  show ?thesis
    using SwitchTab_lands_on_valid_tab [OF n c, of "0 - 1"]
      SwitchTab_lands_on_valid_tab [OF n c, of "0 + 1"]
      SwitchTab_lands_on_valid_tab [OF n c, of "go_rem (0 - 1 + 3) 3"]
      SwitchTab_lands_on_valid_tab [OF n c, of "3 + 5"]
    unfolding k r by auto
qed

subsection \<open>\<open>CloseTab\<close>\<close>

text \<open>
  Claim C5.  \<open>CloseTab\<close> changes nothing when the current tab is not the rightmost
  one.  When it is and there is at most one tab, \<open>CloseTab\<close> stops the application.
  Otherwise it removes the rightmost tab, makes its left neighbour, the new rightmost
  tab, the current one (the index \<open>curTab - 1\<close>, which is not negative), and restores
  that tab's saved state with \<open>applyAll\<close>.
\<close>

theorem CloseTab_rightmost_only:
  "(curTab s \<noteq> NumTabs s - 1 \<longrightarrow> CloseTab s = Inr s)
   \<and> (curTab s = NumTabs s - 1 \<and> NumTabs s \<le> 1 \<longrightarrow>
        CloseTab s = Inr (Stop s) \<and> trace (Stop s) = trace s @ [App_Stop]
        \<and> tabs (Stop s) = tabs s \<and> curTab (Stop s) = curTab s)
   \<and> (curTab s = NumTabs s - 1 \<and> 1 < NumTabs s \<longrightarrow>
        (\<exists>s'. CloseTab s = Inr s'
           \<and> tabs s' = butlast (tabs s)
           \<and> curTab s' = curTab s - 1 \<and> curTab s' = max 0 (curTab s - 1)
           \<and> curTab s' = NumTabs s' - 1
           \<and> heap s' = heap s
           \<and> focus s' = FocusView (tabs s ! nat (curTab s - 1))
           \<and> trace s' = trace s @
                [tabPages_RemovePage (Itoa (curTab s)), tabPages_SwitchToPage (Itoa (curTab s - 1)),
                 Call_rewriteTabRow, Call_applyAll (tabs s ! nat (curTab s - 1)), App_Draw]))"
proof -
  have not_rightmost: "CloseTab s = Inr s" if "curTab s \<noteq> NumTabs s - 1"
    using that by (simp add: CloseTab_def)
  have sole: "CloseTab s = Inr (Stop s) \<and> trace (Stop s) = trace s @ [App_Stop]
        \<and> tabs (Stop s) = tabs s \<and> curTab (Stop s) = curTab s"
    if "curTab s = NumTabs s - 1 \<and> NumTabs s \<le> 1"
    using that by (simp add: CloseTab_def Stop_def)
  have rightmost: "\<exists>s'. CloseTab s = Inr s'
           \<and> tabs s' = butlast (tabs s)
           \<and> curTab s' = curTab s - 1 \<and> curTab s' = max 0 (curTab s - 1)
           \<and> curTab s' = NumTabs s' - 1
           \<and> heap s' = heap s
           \<and> focus s' = FocusView (tabs s ! nat (curTab s - 1))
           \<and> trace s' = trace s @
                [tabPages_RemovePage (Itoa (curTab s)), tabPages_SwitchToPage (Itoa (curTab s - 1)),
                 Call_rewriteTabRow, Call_applyAll (tabs s ! nat (curTab s - 1)), App_Draw]"
    if a: "curTab s = NumTabs s - 1 \<and> 1 < NumTabs s"
  proof -
  from a have len: "2 \<le> length (tabs s)" and cur: "curTab s = int (length (tabs s)) - 1"
    by (simp_all add: NumTabs_def)
  have idx: "nat (int (length (tabs s)) - 2) < length (tabs s) - 1"
    using len by linarith
  have nth: "butlast (tabs s) ! nat (int (length (tabs s)) - 2)
      = tabs s ! nat (int (length (tabs s)) - 2)"
    using idx by (simp add: nth_butlast)
  show ?thesis
    using len cur nth
    by (simp add: CloseTab_def Let_def NumTabs_def tab_at_def emit_def)
  qed
  from not_rightmost sole rightmost show ?thesis by blast
qed

theorem CloseTab_rightmost_only_witness:
  "CloseTab (ex_state [ex_tab ''a'' [], ex_tab ''b'' [], ex_tab ''c'' []] 1 [])
     = Inr (ex_state [ex_tab ''a'' [], ex_tab ''b'' [], ex_tab ''c'' []] 1 [])
   \<and> CloseTab (ex_state [ex_tab ''a'' []] 0 []) = Inr (Stop (ex_state [ex_tab ''a'' []] 0 []))
   \<and> (\<exists>s'. CloseTab (ex_state [ex_tab ''a'' [], ex_tab ''b'' [], ex_tab ''c'' []] 2 []) = Inr s'
         \<and> tabs s' = [0, 1] \<and> curTab s' = 1 \<and> focus s' = FocusView 1)"
proof -
  let ?s3 = "\<lambda>c. ex_state [ex_tab ''a'' [], ex_tab ''b'' [], ex_tab ''c'' []] c []"
  let ?s1 = "ex_state [ex_tab ''a'' []] 0 []"
  have n3: "NumTabs (?s3 c) = 3" "curTab (?s3 c) = c" "tabs (?s3 c) = [0, 1, 2]" for c
    by (simp_all add: NumTabs_def ex_state_def upt_rec)
  have n1: "NumTabs ?s1 = 1" "curTab ?s1 = 0"
    by (simp_all add: NumTabs_def ex_state_def)
  show ?thesis
    using CloseTab_rightmost_only [of "?s3 1"] CloseTab_rightmost_only [of ?s1]
      CloseTab_rightmost_only [of "?s3 2"]
    by (auto simp: n3 n1)
qed

subsection \<open>The digit keys\<close>

lemma string_of_rune_zero: "string_of_rune 48 = ''0''"
  by code_simp

lemma Atoi_zero: "Atoi ''0'' = Some 0"
  by (simp add: Atoi_def is_digit_def digits_val_def digit_val_def)

lemma rune_key_zero:
  "rune_key env t ''0'' s =
     (if 10 \<le> length (Links (page (heap s t))) then
        Some (Inr (emit (Call_followLink t (Url (page (heap s t))) (Links (page (heap s t)) ! 9)) s))
      else None)"
  by (simp add: rune_key_def number_key_def Atoi_zero link_at_def)

text \<open>
  Claim C10.  The focus is on no button, input field or modal, the current tab is
  not loading, and the key is the rune \<open>0\<close>.  On a page with at least ten links the
  callback follows the tenth link, \<open>Links[9]\<close>, on the current tab and consumes the
  event.  On a page with fewer links the keys of the non-loading block do nothing
  and control passes to the keys that also work while loading; unless the
  configuration maps the rune \<open>0\<close> to a tab number there, the state is unchanged and
  the event is handed on.
\<close>

theorem zero_key_follows_link_ten:
  assumes "focus s \<noteq> FocusButton" "focus s \<noteq> FocusBottomBar" "focus s \<noteq> FocusInputField"
      "focus s \<noteq> FocusModal"
    and "tab_at s (curTab s) = Inr t" and "mode (heap s t) = tabModeDone"
    and "ev_Key ev = KeyRune" and "ev_Rune ev = 48"
  shows "(10 \<le> length (Links (page (heap s t))) \<longrightarrow>
           InputCapture env ev s =
             Inr (None, emit (Call_followLink t (Url (page (heap s t)))
                                (Links (page (heap s t)) ! 9)) s))
       \<and> (length (Links (page (heap s t))) < 10 \<longrightarrow>
           InputCapture env ev s = loading_keys env ev t s
           \<and> (config_KeyToNum env 48 = None \<longrightarrow> InputCapture env ev s = Inr (Some ev, s)))"
proof -
  have dk: "done_keys env ev t s = rune_key env t ''0'' s"
    using assms(7,8) by (simp add: done_keys_def string_of_rune_zero)
  have lk: "loading_keys env ev t s = Inr (Some ev, s)" if "config_KeyToNum env 48 = None"
    using that assms(7,8) by (simp add: loading_keys_def string_of_rune_zero)
  show ?thesis
    using assms(1-6) dk lk
    by (simp add: InputCapture_def rune_key_zero handled_def)
qed

theorem zero_key_follows_link_ten_witness:
  "InputCapture ex_env \<lparr>ev_Key = KeyRune, ev_Rune = 48, ev_Modifiers = 0\<rparr>
     (ex_view_state [ex_tab ''gemini://h/''
        [''la'', ''lb'', ''lc'', ''ld'', ''le'', ''lf'', ''lg'', ''lh'', ''li'', ''ten'', ''lk'']] 0)
   = Inr (None, emit (Call_followLink 0 ''gemini://h/'' ''ten'')
       (ex_view_state [ex_tab ''gemini://h/''
          [''la'', ''lb'', ''lc'', ''ld'', ''le'', ''lf'', ''lg'', ''lh'', ''li'', ''ten'', ''lk'']] 0))
   \<and> InputCapture ex_env \<lparr>ev_Key = KeyRune, ev_Rune = 48, ev_Modifiers = 0\<rparr>
       (ex_view_state [ex_tab ''gemini://h/'' [''la'', ''lb'']] 0)
     = Inr (Some \<lparr>ev_Key = KeyRune, ev_Rune = 48, ev_Modifiers = 0\<rparr>,
         ex_view_state [ex_tab ''gemini://h/'' [''la'', ''lb'']] 0)"
proof -
  let ?ev = "\<lparr>ev_Key = KeyRune, ev_Rune = 48, ev_Modifiers = 0\<rparr>"
  let ?s = "\<lambda>ls. ex_view_state [ex_tab ''gemini://h/'' ls] 0"
  let ?l11 = "[''la'', ''lb'', ''lc'', ''ld'', ''le'', ''lf'', ''lg'', ''lh'', ''li'', ''ten'', ''lk'']"
  let ?l2 = "[''la'', ''lb'']"
  have f: "focus (?s ls) \<noteq> FocusButton" "focus (?s ls) \<noteq> FocusBottomBar"
      "focus (?s ls) \<noteq> FocusInputField" "focus (?s ls) \<noteq> FocusModal" for ls
    by (simp_all add: ex_view_state_def)
  have t: "tab_at (?s ls) (curTab (?s ls)) = Inr 0" for ls
    by (simp add: tab_at_def NumTabs_def ex_state_def ex_view_state_def)
  have m: "mode (heap (?s ls) 0) = tabModeDone" for ls
    by (simp add: ex_state_def ex_tab_def ex_view_state_def)
  have pg: "page (heap (?s ls) 0) = ex_page ''gemini://h/'' ls" for ls
    by (simp add: ex_state_def ex_tab_def ex_view_state_def)
  have k: "config_KeyToNum ex_env 48 = None"
    by (simp add: ex_env_def)
  have e: "ev_Key ?ev = KeyRune" "ev_Rune ?ev = 48"
    by simp_all
  show ?thesis
    using zero_key_follows_link_ten [OF f [of ?l11] t [of ?l11] m [of ?l11] e, where env = ex_env]
      zero_key_follows_link_ten [OF f [of ?l2] t [of ?l2] m [of ?l2] e, where env = ex_env] k
    by (auto simp add: pg ex_page_def)
qed

subsection \<open>Searches and manually entered URLs\<close>

lemma URL_fetch:
  assumes "tab_at s (curTab s) = Inr t" and "\<not> HasPrefix u ''about:''"
  shows "URL env u s = Inr (emit (Go_goURL t u) s)"
proof -
  have "u \<noteq> ''about:bookmarks''" "u \<noteq> ''about:newtab''"
    using assms(2) by (auto simp: HasPrefix_def)
  then show ?thesis
    using assms by (simp add: URL_def)
qed

text \<open>
  Claim C1, amended.  The input is not empty or blank, is not \<open>..\<close>, is not accepted
  by \<open>Atoi\<close>, and is not \<open>new:\<close> followed by at least one more byte.  Then \<open>Enter\<close>
  takes the input for a search if it contains a space, or if it contains neither
  \<open>//\<close> nor a dot and does not start with \<open>about:\<close>; otherwise for a URL.  The
  target is the search URL with the escaped input as its query, or the input itself.
  The handler calls \<open>cache.RemovePage\<close> on the target and then \<open>URL\<close> on it; when the
  target does not start with \<open>about:\<close>, the fetch is started after the removal.
\<close>

theorem Enter_search_or_url:
  assumes "tab_at s (curTab s) = Inr t" and "bar_text s = q"
    and "TrimSpace q \<noteq> []" and "q \<noteq> ''..''" and "Atoi q = None"
    and "\<not> (HasPrefix q ''new:'' \<and> 4 < length q)"
    and "u = (if Contains q '' '' \<or>
                (\<not> Contains q ''//'' \<and> \<not> Contains q ''.'' \<and> \<not> HasPrefix q ''about:'')
              then viper_GetString env ''a-general.search'' @ ''?'' @ queryEscape env q
              else q)"
  shows "DoneFunc env KeyEnter s
           = URL env u (emit (cache_RemovePage u) (emit (Call_saveScroll t) s))
       \<and> (\<not> HasPrefix u ''about:'' \<longrightarrow>
            (\<exists>s'. DoneFunc env KeyEnter s = Inr s'
               \<and> trace s' = trace s @ [Call_saveScroll t, cache_RemovePage u, Go_goURL t u]))"
proof -
  let ?s1 = "emit (Call_saveScroll t) s"
  have enter: "DoneFunc env KeyEnter s = DoneFunc_Enter env (curTab s) ?s1"
    using assms(1) by (simp add: DoneFunc_def)
  have "DoneFunc_Enter env (curTab s) ?s1 = search_or_url env q ?s1"
    using assms(1-6) by (auto simp add: DoneFunc_Enter_def)
  also have "\<dots> = URL env u (emit (cache_RemovePage u) ?s1)"
    using assms(7) by (simp add: search_or_url_def is_search_def Let_def)
  finally have eq: "DoneFunc env KeyEnter s = URL env u (emit (cache_RemovePage u) ?s1)"
    using enter by simp
  have "URL env u (emit (cache_RemovePage u) ?s1)
      = Inr (emit (Go_goURL t u) (emit (cache_RemovePage u) ?s1))"
    if "\<not> HasPrefix u ''about:''"
    using that assms(1) by (simp add: URL_fetch)
  with eq show ?thesis by simp
qed

lemma ex_tab_at: "tab_at (ex_state [a] 0 q) (curTab (ex_state [a] 0 q)) = Inr 0"
  by (simp add: tab_at_def NumTabs_def ex_state_def)

theorem Enter_search_or_url_witness:
  "(\<exists>s'. DoneFunc ex_env KeyEnter (ex_state [ex_tab ''gemini://h/'' []] 0 ''search terms here'') = Inr s'
      \<and> trace s' = [Call_saveScroll 0,
            cache_RemovePage ''gemini://gus.guru/search?search%20terms%20here'',
            Go_goURL 0 ''gemini://gus.guru/search?search%20terms%20here''])
   \<and> (\<exists>s'. DoneFunc ex_env KeyEnter (ex_state [ex_tab ''gemini://h/'' []] 0 ''example.org/page'') = Inr s'
      \<and> trace s' = [Call_saveScroll 0, cache_RemovePage ''example.org/page'',
            Go_goURL 0 ''example.org/page''])"
proof -
  let ?q1 = "''search terms here''" and ?q2 = "''example.org/page''"
  let ?s = "\<lambda>q. ex_state [ex_tab ''gemini://h/'' []] 0 q"
  have b: "bar_text (?s q) = q" "trace (?s q) = []" for q
    by (simp_all add: ex_state_def)
  have q1: "TrimSpace ?q1 \<noteq> []" "?q1 \<noteq> ''..''" "Atoi ?q1 = None"
      "\<not> (HasPrefix ?q1 ''new:'' \<and> 4 < length ?q1)" "Contains ?q1 '' ''"
    by code_simp+
  have q2: "TrimSpace ?q2 \<noteq> []" "?q2 \<noteq> ''..''" "Atoi ?q2 = None"
      "\<not> (HasPrefix ?q2 ''new:'' \<and> 4 < length ?q2)" "\<not> Contains ?q2 '' ''" "Contains ?q2 ''.''"
    by code_simp+
  let ?u1 = "''gemini://gus.guru/search?search%20terms%20here''"
  have u1: "?u1 = (if Contains ?q1 '' '' \<or>
                (\<not> Contains ?q1 ''//'' \<and> \<not> Contains ?q1 ''.'' \<and> \<not> HasPrefix ?q1 ''about:'')
              then viper_GetString ex_env ''a-general.search'' @ ''?'' @ queryEscape ex_env ?q1
              else ?q1)"
    using q1(5) by (simp add: ex_env_def)
  have u2: "?q2 = (if Contains ?q2 '' '' \<or>
                (\<not> Contains ?q2 ''//'' \<and> \<not> Contains ?q2 ''.'' \<and> \<not> HasPrefix ?q2 ''about:'')
              then viper_GetString ex_env ''a-general.search'' @ ''?'' @ queryEscape ex_env ?q2
              else ?q2)"
    using q2(5,6) by simp
  have a: "\<not> HasPrefix ?u1 ''about:''" "\<not> HasPrefix ?q2 ''about:''"
    by code_simp+
  have w1: "\<exists>s'. DoneFunc ex_env KeyEnter (?s ?q1) = Inr s'
      \<and> trace s' = [Call_saveScroll 0, cache_RemovePage ?u1, Go_goURL 0 ?u1]"
    using Enter_search_or_url [OF ex_tab_at b(1) q1(1-4) u1, THEN conjunct2, rule_format, OF a(1)]
      b(2) [of ?q1] by simp
  have w2: "\<exists>s'. DoneFunc ex_env KeyEnter (?s ?q2) = Inr s'
      \<and> trace s' = [Call_saveScroll 0, cache_RemovePage ?q2, Go_goURL 0 ?q2]"
    using Enter_search_or_url [OF ex_tab_at b(1) q2(1-4) u2, THEN conjunct2, rule_format, OF a(2)]
      b(2) [of ?q2] by simp
  from w1 w2 show ?thesis by simp
qed

text \<open>
  Claim C1 as stated fails for \<open>new:abc\<close>: it is not blank, not \<open>..\<close>, no integer
  and not \<open>new:\<close> with a number, and it holds no space, no \<open>//\<close> and no dot, so it
  would be a search.  The handler resets the bottom bar instead: nothing is removed
  from the cache and nothing is fetched.
\<close>

theorem Enter_new_prefix_counterexample:
  "TrimSpace ''new:abc'' \<noteq> [] \<and> ''new:abc'' \<noteq> ''..'' \<and> Atoi ''new:abc'' = None
   \<and> Atoi (drop 4 ''new:abc'') = None
   \<and> is_search ''new:abc''
   \<and> (\<exists>s'. DoneFunc ex_env KeyEnter (ex_state [ex_tab ''gemini://h/'' []] 0 ''new:abc'') = Inr s'
         \<and> trace s' = [Call_saveScroll 0, Call_applyAll 0])"
proof -
  let ?q = "''new:abc''"
  have q: "TrimSpace ?q \<noteq> []" "?q \<noteq> ''..''" "Atoi ?q = None" "Atoi (drop 4 ?q) = None"
      "is_search ?q" "HasPrefix ?q ''new:''"
    by code_simp+
  have "\<exists>s'. DoneFunc ex_env KeyEnter (ex_state [ex_tab ''gemini://h/'' []] 0 ?q) = Inr s'
         \<and> trace s' = [Call_saveScroll 0, Call_applyAll 0]"
    using q(1-4,6)
    by (simp add: DoneFunc_def DoneFunc_Enter_def reset_def ex_state_def tab_at_def NumTabs_def
        emit_def)
  with q show ?thesis by simp
qed

subsection \<open>The command \<open>..\<close>\<close>

lemma TrimSpace_dotdot: "TrimSpace ''..'' \<noteq> []"
  by code_simp

lemma parent_path_examples:
  "parent_path ''/test/foo/'' = ''/test/''" "parent_path ''/test'' = ''/''"
  "parent_path [] = ''/''"
  by code_simp+

lemma reset_Inr:
  assumes "tab_at s i = Inr t"
  shows "reset i s = Inr ((emit (Call_applyAll t) (s\<lparr>bar_label := []\<rparr>))\<lparr>focus := FocusView t\<rparr>)"
  using assms by (simp add: reset_def)

text \<open>
  Claim C2.  The input is exactly \<open>..\<close>, the current tab has content and its URL
  parses.  When the path of the parsed URL is \<open>/\<close>, \<open>Enter\<close> only resets the bottom
  bar: no navigation is started.  Otherwise it calls \<open>URL\<close> on the parsed URL whose
  path is the old path with \<open>/..\<close> appended, cleaned, with a slash appended and
  \<open>//\<close> replaced by \<open>/\<close>, and whose query is empty.  So the path \<open>/test/foo/\<close>
  becomes \<open>/test/\<close> and the path \<open>/test\<close> becomes \<open>/\<close>.
\<close>

theorem Enter_dotdot_goes_up:
  assumes "tab_at s (curTab s) = Inr t" and "bar_text s = ''..''"
    and "hasContent env (heap s t)"
    and "url_Parse env (Url (page (heap s t))) = Some parsed"
  shows "(Path parsed = ''/'' \<longrightarrow>
            DoneFunc env KeyEnter s =
              Inr ((emit (Call_applyAll t) ((emit (Call_saveScroll t) s)\<lparr>bar_label := []\<rparr>))
                     \<lparr>focus := FocusView t\<rparr>))
       \<and> (Path parsed \<noteq> ''/'' \<longrightarrow>
            DoneFunc env KeyEnter s =
              URL env
                (url_String env
                   (parsed\<lparr>Path := (let p = path_Clean (Path parsed @ ''/..'') @ ''/''
                                     in if p = ''//'' then ''/'' else p),
                           RawQuery := []\<rparr>))
                (emit (Call_saveScroll t) s))
       \<and> (Path parsed = ''/test/foo/'' \<longrightarrow>
            DoneFunc env KeyEnter s =
              URL env (url_String env (parsed\<lparr>Path := ''/test/'', RawQuery := []\<rparr>))
                (emit (Call_saveScroll t) s))
       \<and> (Path parsed = ''/test'' \<longrightarrow>
            DoneFunc env KeyEnter s =
              URL env (url_String env (parsed\<lparr>Path := ''/'', RawQuery := []\<rparr>))
                (emit (Call_saveScroll t) s))"
proof -
  let ?s1 = "emit (Call_saveScroll t) s"
  have up: "DoneFunc env KeyEnter s = go_up env (curTab s) ?s1"
    using assms(1-3) by (simp add: DoneFunc_def DoneFunc_Enter_def TrimSpace_dotdot)
  have root: "go_up env (curTab s) ?s1
        = Inr ((emit (Call_applyAll t) (?s1\<lparr>bar_label := []\<rparr>))\<lparr>focus := FocusView t\<rparr>)"
    if "Path parsed = ''/''"
    using that assms(1,4) by (simp add: go_up_def reset_Inr)
  have other: "go_up env (curTab s) ?s1
        = URL env (url_String env (parsed\<lparr>Path := parent_path (Path parsed), RawQuery := []\<rparr>)) ?s1"
    if "Path parsed \<noteq> ''/''"
    using that assms(1,4) by (simp add: go_up_def)
  have c1: "?thesis" if "Path parsed = ''/''"
    using that up root by simp
  have c2: "?thesis" if "Path parsed \<noteq> ''/''"
    using that up other parent_path_examples(1,2)
    by (auto simp add: parent_path_def Let_def)
  from c1 c2 show ?thesis by blast
qed

lemma ex_Parse_examples:
  "ex_Parse ''gemini://host/test/foo/'' = Some (ex_url ''/test/foo/'')"
  "ex_Parse ''gemini://host/test'' = Some (ex_url ''/test'')"
  "ex_Parse ''gemini://host/'' = Some (ex_url ''/'')"
  "ex_Parse ''gemini://host/a/b?q=1'' = Some ((ex_url ''/a/b'')\<lparr>RawQuery := ''q=1''\<rparr>)"
  by code_simp+

lemma ex_String_examples:
  "ex_String ((ex_url p)\<lparr>Path := ''/test/'', RawQuery := []\<rparr>) = ''gemini://host/test/''"
  "ex_String ((ex_url p)\<lparr>Path := ''/'', RawQuery := []\<rparr>) = ''gemini://host/''"
  by (simp_all add: ex_String_def ex_url_def)

lemma ex_state_facts:
  "bar_text (ex_state [a] 0 q) = q" "trace (ex_state [a] 0 q) = []"
  "heap (ex_state [a] 0 q) 0 = a"
  by (simp_all add: ex_state_def)

theorem Enter_dotdot_goes_up_witness:
  "(\<exists>s'. DoneFunc ex_env KeyEnter (ex_state [ex_tab ''gemini://host/test/foo/'' []] 0 ''..'') = Inr s'
      \<and> trace s' = [Call_saveScroll 0, Go_goURL 0 ''gemini://host/test/''])
   \<and> (\<exists>s'. DoneFunc ex_env KeyEnter (ex_state [ex_tab ''gemini://host/test'' []] 0 ''..'') = Inr s'
      \<and> trace s' = [Call_saveScroll 0, Go_goURL 0 ''gemini://host/''])
   \<and> (\<exists>s'. DoneFunc ex_env KeyEnter (ex_state [ex_tab ''gemini://host/'' []] 0 ''..'') = Inr s'
      \<and> trace s' = [Call_saveScroll 0, Call_applyAll 0] \<and> bar_label s' = [])"
proof -
  let ?s = "\<lambda>u. ex_state [ex_tab u []] 0 ''..''"
  have hc: "hasContent ex_env (heap (?s u) 0) = (u \<noteq> [] \<and> \<not> HasPrefix u ''about:'')" for u
    by (simp add: ex_env_def ex_hasContent_def ex_state_facts ex_tab_def ex_page_def)
  have pu: "url_Parse ex_env (Url (page (heap (?s u) 0))) = ex_Parse u" for u
    by (simp add: ex_env_def ex_state_facts ex_tab_def ex_page_def)
  have h: "hasContent ex_env (heap (?s ''gemini://host/test/foo/'') 0)"
      "hasContent ex_env (heap (?s ''gemini://host/test'') 0)"
      "hasContent ex_env (heap (?s ''gemini://host/'') 0)"
    unfolding hc by code_simp+
  have n: "\<not> HasPrefix ''gemini://host/test/'' ''about:''" "\<not> HasPrefix ''gemini://host/'' ''about:''"
    by code_simp+
  have t1: "tab_at (emit c (?s u)) (curTab (emit c (?s u))) = Inr 0" for c u
    by (simp add: ex_tab_at)
  have st: "url_String ex_env = ex_String"
    by (simp add: ex_env_def)
  have p: "url_Parse ex_env (Url (page (heap (?s ''gemini://host/test/foo/'') 0)))
        = Some (ex_url ''/test/foo/'')"
      "url_Parse ex_env (Url (page (heap (?s ''gemini://host/test'') 0))) = Some (ex_url ''/test'')"
      "url_Parse ex_env (Url (page (heap (?s ''gemini://host/'') 0))) = Some (ex_url ''/'')"
    by (simp_all add: pu ex_Parse_examples)
  have path: "Path (ex_url x) = x" for x
    by (simp add: ex_url_def)
  have w1: "\<exists>s'. DoneFunc ex_env KeyEnter (?s ''gemini://host/test/foo/'') = Inr s'
      \<and> trace s' = [Call_saveScroll 0, Go_goURL 0 ''gemini://host/test/'']"
    using Enter_dotdot_goes_up [OF ex_tab_at ex_state_facts(1) h(1) p(1),
        THEN conjunct2, THEN conjunct2, THEN conjunct1, rule_format, OF path]
    by (simp add: path st ex_String_examples URL_fetch [OF t1 n(1)] ex_state_facts)
  have w2: "\<exists>s'. DoneFunc ex_env KeyEnter (?s ''gemini://host/test'') = Inr s'
      \<and> trace s' = [Call_saveScroll 0, Go_goURL 0 ''gemini://host/'']"
    using Enter_dotdot_goes_up [OF ex_tab_at ex_state_facts(1) h(2) p(2),
        THEN conjunct2, THEN conjunct2, THEN conjunct2, rule_format, OF path]
    by (simp add: path st ex_String_examples URL_fetch [OF t1 n(2)] ex_state_facts)
  have w3: "\<exists>s'. DoneFunc ex_env KeyEnter (?s ''gemini://host/'') = Inr s'
      \<and> trace s' = [Call_saveScroll 0, Call_applyAll 0] \<and> bar_label s' = []"
    using Enter_dotdot_goes_up [OF ex_tab_at ex_state_facts(1) h(3) p(3),
        THEN conjunct1, rule_format, OF path]
    by (simp add: path ex_state_facts)
  from w1 w2 w3 show ?thesis by simp
qed

subsection \<open>Inputs that start with \<open>new:\<close>\<close>

lemma Atoi_new: "Atoi (''new:'' @ n) = None"
  by (simp add: Atoi_def is_digit_def)

lemma space_runes_not_n: "p \<in> set space_runes \<Longrightarrow> p \<noteq> [] \<and> hd p \<noteq> CHR ''n''"
  by (auto simp: space_runes_def)

lemma leading_space_n: "leading_space (CHR ''n'' # x) = 0"
proof -
  have "\<not> prefix p (CHR ''n'' # x)" if "p \<in> set space_runes" for p
  proof -
    have "p \<noteq> [] \<and> hd p \<noteq> CHR ''n''"
      using that by (rule space_runes_not_n)
    then obtain c cs where "p = c # cs" "c \<noteq> CHR ''n''"
      by (metis list.exhaust_sel)
    then show ?thesis by simp
  qed
  then have "filter (\<lambda>p. prefix p (CHR ''n'' # x)) space_runes = []"
    by (simp add: filter_empty_conv)
  then show ?thesis by (simp add: leading_space_def)
qed

lemma trailing_space_cases:
  "trailing_space s = 0 \<or> (\<exists>p \<in> set space_runes. suffix p s \<and> trailing_space s = length p)"
proof (cases "filter (\<lambda>p. suffix p s) space_runes")
  case Nil
  then show ?thesis by (simp add: trailing_space_def)
next
  case (Cons p ps)
  then have "p \<in> set (filter (\<lambda>p. suffix p s) space_runes)" by simp
  then have "p \<in> set space_runes" "suffix p s" by simp_all
  with Cons show ?thesis by (auto simp: trailing_space_def)
qed

lemma TrimRightSpace_n: "s \<noteq> [] \<Longrightarrow> hd s = CHR ''n'' \<Longrightarrow> TrimRightSpace s \<noteq> []"
proof (induction s rule: TrimRightSpace.induct)
  case (1 s)
  show ?case
  proof (cases "trailing_space s = 0")
    case True
    with "1.prems" show ?thesis by (simp add: TrimRightSpace.simps [of s])
  next
    case False
    then obtain p where p: "p \<in> set space_runes" "suffix p s" "trailing_space s = length p"
      using trailing_space_cases [of s] by auto
    have "length p \<le> length s" using p(2) by (rule suffix_length_le)
    moreover have "length p \<noteq> length s"
    proof
      assume "length p = length s"
      with p(2) have "p = s" by (auto simp: suffix_def)
      with p(1) "1.prems" show False using space_runes_not_n by auto
    qed
    ultimately have lt: "length p < length s" by simp
    let ?s' = "take (length s - trailing_space s) s"
    have ne: "?s' \<noteq> []" using lt p(3) "1.prems" by simp
    have hd: "hd ?s' = CHR ''n''" using lt p(3) "1.prems" by simp
    have "TrimRightSpace ?s' \<noteq> []"
      using "1.IH" [OF False ne hd] .
    with False show ?thesis by (simp add: TrimRightSpace.simps [of s])
  qed
qed

lemma TrimSpace_new: "TrimSpace (''new:'' @ n) \<noteq> []"
proof -
  have "TrimLeftSpace (''new:'' @ n) = ''new:'' @ n"
    by (simp add: TrimLeftSpace.simps [of "CHR ''n'' # _"] leading_space_n)
  then show ?thesis
    by (simp add: TrimSpace_def TrimRightSpace_n)
qed

lemma fetches_simps [simp]:
  "fetches [] = []" "fetches (xs @ ys) = fetches xs @ fetches ys"
  "fetches (c # cs) = (case c of Go_goURL t u \<Rightarrow> [(t, u)] | _ \<Rightarrow> []) @ fetches cs"
  by (simp_all add: fetches_def)

lemma notices_simps [simp]:
  "notices [] = []" "notices (xs @ ys) = notices xs @ notices ys"
  "notices (c # cs) = (case c of Call_Error title msg \<Rightarrow> [(title, msg)] | _ \<Rightarrow> []) @ notices cs"
  by (simp_all add: notices_def)

text \<open>
  \<open>NewTab\<close> on a session whose current index is valid: it appends a tab at a fresh
  address, makes it current, starts no fetch and shows no notice.
\<close>

lemma NewTab_Inr:
  assumes "tab_at s (curTab s) = Inr t"
  shows "\<exists>s1. NewTab env s = Inr s1
           \<and> tabs s1 = tabs s @ [next_ptr s] \<and> curTab s1 = NumTabs s
           \<and> (\<forall>p. p \<noteq> next_ptr s \<longrightarrow> heap s1 p = heap s p)
           \<and> fetches (trace s1) = fetches (trace s)
           \<and> notices (trace s1) = notices (trace s)"
proof -
  have "0 \<le> curTab s" using assms by (auto simp: tab_at_def split: if_splits)
  then show ?thesis
    using assms
    by (simp add: NewTab_def Let_def setPage_def upd_tab_def emit_def NumTabs_def)
qed

lemma Atoi_Nil: "Atoi [] = None"
  by (simp add: Atoi_def)

text \<open>
  \<open>Enter\<close> on \<open>new:\<close> followed by a number \<open>i\<close>: the new-tab branch when \<open>i\<close> is a
  link number of the page, a reset otherwise.
\<close>

lemma Enter_new_number:
  assumes "tab_at s (curTab s) = Inr t" and "bar_text s = ''new:'' @ n" and "Atoi n = Some i"
  shows "DoneFunc env KeyEnter s =
           (if i \<le> int (length (Links (page (heap s t)))) \<and> 0 < i
            then open_in_new_tab env (curTab s) i (emit (Call_saveScroll t) s)
            else Inr ((emit (Call_applyAll t) ((emit (Call_saveScroll t) s)\<lparr>bar_label := []\<rparr>))
                        \<lparr>focus := FocusView t\<rparr>))"
proof -
  define q where "q = ''new:'' @ n"
  have n: "n \<noteq> []" using assms(3) Atoi_Nil by auto
  then have len: "4 < length q" by (cases n) (simp_all add: q_def)
  have q: "HasPrefix q ''new:''" "q \<noteq> ''..''" "drop 4 q = n" "TrimSpace q \<noteq> []" "Atoi q = None"
    using TrimSpace_new [of n] Atoi_new [of n] by (simp_all add: HasPrefix_def q_def)
  have bar: "bar_text s = q" using assms(2) by (simp add: q_def)
  have "DoneFunc env KeyEnter s = DoneFunc_Enter env (curTab s) (emit (Call_saveScroll t) s)"
    using assms(1) by (simp add: DoneFunc_def)
  also have "\<dots> =
           (if i \<le> int (length (Links (page (heap s t)))) \<and> 0 < i
            then open_in_new_tab env (curTab s) i (emit (Call_saveScroll t) s)
            else follow_or_reset (curTab s) i (emit (Call_saveScroll t) s))"
    using assms(1,3) len q bar by (simp add: DoneFunc_Enter_def)
  also have "\<dots> =
           (if i \<le> int (length (Links (page (heap s t)))) \<and> 0 < i
            then open_in_new_tab env (curTab s) i (emit (Call_saveScroll t) s)
            else Inr ((emit (Call_applyAll t) ((emit (Call_saveScroll t) s)\<lparr>bar_label := []\<rparr>))
                        \<lparr>focus := FocusView t\<rparr>))"
    using assms(1) by (simp add: follow_or_reset_def reset_Inr)
  finally show ?thesis .
qed

text \<open>
  The new-tab branch for a link number \<open>i\<close> of the page, on a session whose next
  address is not the current tab's: the new tab is created first; then a link that
  does not parse gives a notice and a reset, and a link that parses is resolved and
  handed to \<open>URL\<close>.
\<close>

lemma open_in_new_tab_cases:
  assumes "tab_at s (curTab s) = Inr t" and "next_ptr s \<noteq> t"
    and "0 < i" and "i \<le> int (length (Links (page (heap s t))))"
  shows "\<exists>s1. NewTab env s = Inr s1
           \<and> tabs s1 = tabs s @ [next_ptr s] \<and> curTab s1 = NumTabs s
           \<and> tab_at s1 (curTab s1) = Inr (next_ptr s)
           \<and> fetches (trace s1) = fetches (trace s)
           \<and> notices (trace s1) = notices (trace s)
           \<and> open_in_new_tab env (curTab s) i s =
               (case url_Parse env (Links (page (heap s t)) ! nat (i - 1)) of
                  None \<Rightarrow>
                    Inr ((emit (Call_applyAll t)
                            ((emit (Call_Error ''URL Error'' ''link URL could not be parsed'') s1)
                               \<lparr>bar_label := []\<rparr>))\<lparr>focus := FocusView t\<rparr>)
                | Some r \<Rightarrow>
                    (case url_ResolveReference env (url_Parse env (Url (page (heap s t)))) r of
                       None \<Rightarrow> Inl NilPointerDereference
                     | Some v \<Rightarrow> URL env (url_String env v) s1))"
proof -
  obtain s1 where s1: "NewTab env s = Inr s1" "tabs s1 = tabs s @ [next_ptr s]"
      "curTab s1 = NumTabs s" "\<forall>p. p \<noteq> next_ptr s \<longrightarrow> heap s1 p = heap s p"
      "fetches (trace s1) = fetches (trace s)" "notices (trace s1) = notices (trace s)"
    using NewTab_Inr [OF assms(1), of env] by blast
  have cur: "0 \<le> curTab s" "curTab s < NumTabs s" "tabs s ! nat (curTab s) = t"
    using assms(1) by (auto simp: tab_at_def split: if_splits)
  have idx: "nat (curTab s) < length (tabs s)"
    using cur by (simp add: NumTabs_def)
  have old: "tab_at s1 (curTab s) = Inr t"
    using cur idx s1(2) by (simp add: tab_at_def NumTabs_def nth_append)
  have new: "tab_at s1 (curTab s1) = Inr (next_ptr s)"
    using s1(2,3) by (simp add: tab_at_def NumTabs_def nth_append)
  have hp: "heap s1 t = heap s t"
    using s1(4) assms(2) by simp
  have lk: "link_at (Links (page (heap s t))) i = Inr (Links (page (heap s t)) ! nat (i - 1))"
    using assms(3,4) by (simp add: link_at_def)
  have "open_in_new_tab env (curTab s) i s =
               (case url_Parse env (Links (page (heap s t)) ! nat (i - 1)) of
                  None \<Rightarrow>
                    Inr ((emit (Call_applyAll t)
                            ((emit (Call_Error ''URL Error'' ''link URL could not be parsed'') s1)
                               \<lparr>bar_label := []\<rparr>))\<lparr>focus := FocusView t\<rparr>)
                | Some r \<Rightarrow>
                    (case url_ResolveReference env (url_Parse env (Url (page (heap s t)))) r of
                       None \<Rightarrow> Inl NilPointerDereference
                     | Some v \<Rightarrow> URL env (url_String env v) s1))"
    using s1(1) old hp lk
    by (simp add: open_in_new_tab_def reset_Inr split: option.splits)
  with s1 new show ?thesis by blast
qed

lemma tab_at_upd_tab [simp]: "tab_at (upd_tab p f s) i = tab_at s i"
  by (simp add: tab_at_def upd_tab_def NumTabs_def)

lemma upd_tab_fields [simp]:
  "curTab (upd_tab p f s) = curTab s" "tabs (upd_tab p f s) = tabs s"
  "trace (upd_tab p f s) = trace s" "bar_label (upd_tab p f s) = bar_label s"
  "bar_text (upd_tab p f s) = bar_text s" "focus (upd_tab p f s) = focus s"
  "heap (upd_tab p f s) = (heap s)(p := f (heap s p))"
  by (simp_all add: upd_tab_def)

text \<open>\<open>URL\<close> on a session whose current index is valid returns and keeps the tabs.\<close>

lemma URL_frame:
  assumes "tab_at s (curTab s) = Inr t"
  shows "\<exists>s'. URL env u s = Inr s' \<and> tabs s' = tabs s \<and> curTab s' = curTab s"
  using assms by (simp add: URL_def setPage_def)

text \<open>
  Claim C3, amended.  The input is \<open>new:\<close> followed by a number \<open>i\<close>, on a session
  whose next free address is not the current tab's.  When \<open>1 \<le> i \<le> len(links)\<close> and
  \<open>links[i-1]\<close> parses and resolves against the URL of the page, the handler creates
  a new tab, makes it current and calls \<open>URL\<close> on the resolved URL, so a resolved
  URL outside \<open>about:\<close> is fetched for the new tab.  When \<open>i\<close> is out of that range,
  no tab is created and nothing is fetched: the bottom bar is reset.
\<close>

theorem Enter_new_opens_link_in_new_tab:
  assumes "tab_at s (curTab s) = Inr t" and "bar_text s = ''new:'' @ n" and "Atoi n = Some i"
    and "next_ptr s \<noteq> t"
  shows "(1 \<le> i \<and> i \<le> int (length (Links (page (heap s t))))
          \<and> url_Parse env (Links (page (heap s t)) ! nat (i - 1)) = Some r
          \<and> url_ResolveReference env (url_Parse env (Url (page (heap s t)))) r = Some v \<longrightarrow>
           (\<exists>s1 s'. NewTab env (emit (Call_saveScroll t) s) = Inr s1
              \<and> DoneFunc env KeyEnter s = URL env (url_String env v) s1
              \<and> DoneFunc env KeyEnter s = Inr s'
              \<and> tabs s' = tabs s @ [next_ptr s] \<and> curTab s' = NumTabs s
              \<and> (\<not> HasPrefix (url_String env v) ''about:'' \<longrightarrow>
                   fetches (trace s') = fetches (trace s) @ [(next_ptr s, url_String env v)])))
       \<and> (\<not> (1 \<le> i \<and> i \<le> int (length (Links (page (heap s t))))) \<longrightarrow>
           (\<exists>s'. DoneFunc env KeyEnter s = Inr s'
              \<and> tabs s' = tabs s \<and> curTab s' = curTab s \<and> heap s' = heap s
              \<and> trace s' = trace s @ [Call_saveScroll t, Call_applyAll t]
              \<and> bar_label s' = [] \<and> focus s' = FocusView t))"
proof (intro conjI impI)
  let ?sa = "emit (Call_saveScroll t) s"
  let ?u = "url_String env v"
  assume r: "1 \<le> i \<and> i \<le> int (length (Links (page (heap s t))))
          \<and> url_Parse env (Links (page (heap s t)) ! nat (i - 1)) = Some r
          \<and> url_ResolveReference env (url_Parse env (Url (page (heap s t)))) r = Some v"
  have ta: "tab_at ?sa (curTab ?sa) = Inr t"
    using assms(1) by simp
  have pa: "next_ptr ?sa \<noteq> t"
    using assms(4) by simp
  have ra: "0 < i" "i \<le> int (length (Links (page (heap ?sa t))))"
    using r by simp_all
  obtain s1 where s1: "NewTab env ?sa = Inr s1" "tabs s1 = tabs ?sa @ [next_ptr ?sa]"
      "curTab s1 = NumTabs ?sa" "tab_at s1 (curTab s1) = Inr (next_ptr ?sa)"
      "fetches (trace s1) = fetches (trace ?sa)"
      and op: "open_in_new_tab env (curTab ?sa) i ?sa =
               (case url_Parse env (Links (page (heap ?sa t)) ! nat (i - 1)) of
                  None \<Rightarrow>
                    Inr ((emit (Call_applyAll t)
                            ((emit (Call_Error ''URL Error'' ''link URL could not be parsed'') s1)
                               \<lparr>bar_label := []\<rparr>))\<lparr>focus := FocusView t\<rparr>)
                | Some r \<Rightarrow>
                    (case url_ResolveReference env (url_Parse env (Url (page (heap ?sa t)))) r of
                       None \<Rightarrow> Inl NilPointerDereference
                     | Some v \<Rightarrow> URL env (url_String env v) s1))"
    using open_in_new_tab_cases [OF ta pa ra, of env] by blast
  have enter: "DoneFunc env KeyEnter s = open_in_new_tab env (curTab ?sa) i ?sa"
    using Enter_new_number [OF assms(1-3), of env] r by simp
  have eq: "DoneFunc env KeyEnter s = URL env ?u s1"
    using r enter op by simp
  obtain s' where s': "URL env ?u s1 = Inr s'" "tabs s' = tabs s1" "curTab s' = curTab s1"
    using URL_frame [OF s1(4), of env ?u] by blast
  have fe: "fetches (trace s') = fetches (trace s) @ [(next_ptr s, ?u)]"
    if "\<not> HasPrefix ?u ''about:''"
  proof -
    have "URL env ?u s1 = Inr (emit (Go_goURL (next_ptr ?sa) ?u) s1)"
      using URL_fetch [OF s1(4) that] .
    with s'(1) have "s' = emit (Go_goURL (next_ptr ?sa) ?u) s1" by simp
    then show ?thesis using s1(5) by simp
  qed
  have "NewTab env ?sa = Inr s1
      \<and> DoneFunc env KeyEnter s = URL env ?u s1
      \<and> DoneFunc env KeyEnter s = Inr s'
      \<and> tabs s' = tabs s @ [next_ptr s] \<and> curTab s' = NumTabs s
      \<and> (\<not> HasPrefix ?u ''about:'' \<longrightarrow>
           fetches (trace s') = fetches (trace s) @ [(next_ptr s, ?u)])"
    using s1(1-3) eq s' fe by simp
  then show "\<exists>s1 s'. NewTab env ?sa = Inr s1
              \<and> DoneFunc env KeyEnter s = URL env ?u s1
              \<and> DoneFunc env KeyEnter s = Inr s'
              \<and> tabs s' = tabs s @ [next_ptr s] \<and> curTab s' = NumTabs s
              \<and> (\<not> HasPrefix ?u ''about:'' \<longrightarrow>
                   fetches (trace s') = fetches (trace s) @ [(next_ptr s, ?u)])"
    by blast
next
  assume "\<not> (1 \<le> i \<and> i \<le> int (length (Links (page (heap s t)))))"
  then have "DoneFunc env KeyEnter s =
      Inr ((emit (Call_applyAll t) ((emit (Call_saveScroll t) s)\<lparr>bar_label := []\<rparr>))
             \<lparr>focus := FocusView t\<rparr>)"
    using Enter_new_number [OF assms(1-3), of env] by auto
  then show "\<exists>s'. DoneFunc env KeyEnter s = Inr s'
              \<and> tabs s' = tabs s \<and> curTab s' = curTab s \<and> heap s' = heap s
              \<and> trace s' = trace s @ [Call_saveScroll t, Call_applyAll t]
              \<and> bar_label s' = [] \<and> focus s' = FocusView t"
    by (simp add: emit_def)
qed

lemma ex_state_more:
  "tabs (ex_state [a] 0 q) = [0]" "next_ptr (ex_state [a] 0 q) = 1"
  "NumTabs (ex_state [a] 0 q) = 1" "curTab (ex_state [a] 0 q) = 0"
  "page (heap (ex_state [ex_tab u ls] 0 q) 0) = ex_page u ls"
  "Links (ex_page u ls) = ls" "Url (ex_page u ls) = u" "page (ex_tab u ls) = ex_page u ls"
  by (simp_all add: ex_state_def NumTabs_def ex_tab_def ex_page_def)

lemma ex_env_url:
  "url_Parse ex_env = ex_Parse" "url_String ex_env = ex_String"
  "url_ResolveReference ex_env = ex_ResolveReference"
  by (simp_all add: ex_env_def)

lemma Atoi_examples: "Atoi ''3'' = Some 3" "Atoi ''1'' = Some 1"
  by code_simp+

lemma ex_resolve_examples:
  "ex_Parse ''c/d'' = Some (empty_url\<lparr>Path := ''c/d''\<rparr>)"
  "ex_ResolveReference (ex_Parse ''gemini://host/a/b'') (empty_url\<lparr>Path := ''c/d''\<rparr>)
     = Some (ex_url ''/a/c/d'')"
  "ex_String (ex_url ''/a/c/d'') = ''gemini://host/a/c/d''"
  "\<not> HasPrefix ''gemini://host/a/c/d'' ''about:''"
  by code_simp+

theorem Enter_new_opens_link_in_new_tab_witness:
  "(\<exists>s'. DoneFunc ex_env KeyEnter
            (ex_state [ex_tab ''gemini://host/a/b'' [''l1'', ''l2'', ''c/d'', ''l4'', ''l5'']] 0 ''new:3'')
          = Inr s'
       \<and> tabs s' = [0, 1] \<and> curTab s' = 1 \<and> fetches (trace s') = [(1, ''gemini://host/a/c/d'')])
   \<and> (\<exists>s'. DoneFunc ex_env KeyEnter (ex_state [ex_tab ''gemini://host/a/b'' [''l1'', ''l2'']] 0 ''new:3'')
          = Inr s'
       \<and> tabs s' = [0] \<and> curTab s' = 0 \<and> trace s' = [Call_saveScroll 0, Call_applyAll 0])"
proof -
  let ?l5 = "[''l1'', ''l2'', ''c/d'', ''l4'', ''l5'']" and ?l2 = "[''l1'', ''l2'']"
  let ?s = "\<lambda>ls. ex_state [ex_tab ''gemini://host/a/b'' ls] 0 ''new:3''"
  have b: "bar_text (?s ls) = ''new:'' @ ''3''" for ls
    by (simp add: ex_state_facts)
  have p: "next_ptr (?s ls) \<noteq> 0" for ls
    by (simp add: ex_state_more)
  note th5 = Enter_new_opens_link_in_new_tab [OF ex_tab_at b [of ?l5] Atoi_examples(1) p,
      where env = ex_env and r = "empty_url\<lparr>Path := ''c/d''\<rparr>" and v = "ex_url ''/a/c/d''"]
  note th2 = Enter_new_opens_link_in_new_tab [OF ex_tab_at b [of ?l2] Atoi_examples(1) p,
      where env = ex_env]
  have r5: "1 \<le> (3::int) \<and> 3 \<le> int (length (Links (page (heap (?s ?l5) 0))))
      \<and> url_Parse ex_env (Links (page (heap (?s ?l5) 0)) ! nat (3 - 1)) = Some (empty_url\<lparr>Path := ''c/d''\<rparr>)
      \<and> url_ResolveReference ex_env (url_Parse ex_env (Url (page (heap (?s ?l5) 0))))
            (empty_url\<lparr>Path := ''c/d''\<rparr>) = Some (ex_url ''/a/c/d'')"
    by (simp add: ex_state_more ex_env_url ex_resolve_examples)
  have r2: "\<not> (1 \<le> (3::int) \<and> 3 \<le> int (length (Links (page (heap (?s ?l2) 0)))))"
    by (simp add: ex_state_more)
  from th5 [THEN conjunct1, rule_format, OF r5]
  have w5: "\<exists>s'. DoneFunc ex_env KeyEnter (?s ?l5) = Inr s'
       \<and> tabs s' = [0, 1] \<and> curTab s' = 1 \<and> fetches (trace s') = [(1, ''gemini://host/a/c/d'')]"
    by (auto simp add: ex_env_url ex_resolve_examples ex_state_more ex_state_facts)
  from th2 [THEN conjunct2, rule_format, OF r2]
  have w2: "\<exists>s'. DoneFunc ex_env KeyEnter (?s ?l2) = Inr s'
       \<and> tabs s' = [0] \<and> curTab s' = 0 \<and> trace s' = [Call_saveScroll 0, Call_applyAll 0]"
    by (auto simp add: ex_state_more ex_state_facts)
  from w5 w2 show ?thesis by simp
qed

text \<open>
  Claim C3 as stated fails when the link does not parse: \<open>new:3\<close> on a page whose
  third link is \<open>:broken\<close> shows a notice and starts no fetch, although \<open>3\<close> is a link
  number of the page.
\<close>

lemma ex_new_tab_branch:
  assumes "Atoi n = Some i" and "0 < i" and "i \<le> int (length ls)" and "q = ''new:'' @ n"
  shows "\<exists>s1. tabs s1 = [0, 1] \<and> curTab s1 = 1 \<and> tab_at s1 (curTab s1) = Inr 1
           \<and> fetches (trace s1) = [] \<and> notices (trace s1) = []
           \<and> DoneFunc ex_env KeyEnter (ex_state [ex_tab u ls] 0 q) =
               (case ex_Parse (ls ! nat (i - 1)) of
                  None \<Rightarrow>
                    Inr ((emit (Call_applyAll 0)
                            ((emit (Call_Error ''URL Error'' ''link URL could not be parsed'') s1)
                               \<lparr>bar_label := []\<rparr>))\<lparr>focus := FocusView 0\<rparr>)
                | Some r \<Rightarrow>
                    (case ex_ResolveReference (ex_Parse u) r of
                       None \<Rightarrow> Inl NilPointerDereference
                     | Some v \<Rightarrow> URL ex_env (ex_String v) s1))"
proof -
  let ?s = "ex_state [ex_tab u ls] 0 q"
  let ?sa = "emit (Call_saveScroll 0) ?s"
  have t0: "tab_at ?sa (curTab ?sa) = Inr 0"
    by (simp add: ex_tab_at)
  have p0: "next_ptr ?sa \<noteq> 0"
    by (simp add: ex_state_more)
  have r0: "i \<le> int (length (Links (page (heap ?sa 0))))"
    using assms(3) by (simp add: ex_state_more)
  have b: "bar_text ?s = ''new:'' @ n"
    using assms(4) by (simp add: ex_state_facts)
  have enter: "DoneFunc ex_env KeyEnter ?s = open_in_new_tab ex_env (curTab ?sa) i ?sa"
    using Enter_new_number [OF ex_tab_at b assms(1), of ex_env] assms(2,3)
    by (simp add: ex_state_more)
  obtain s1 where s1: "tabs s1 = tabs ?sa @ [next_ptr ?sa]" "curTab s1 = NumTabs ?sa"
      "tab_at s1 (curTab s1) = Inr (next_ptr ?sa)"
      "fetches (trace s1) = fetches (trace ?sa)" "notices (trace s1) = notices (trace ?sa)"
    and op: "open_in_new_tab ex_env (curTab ?sa) i ?sa =
               (case url_Parse ex_env (Links (page (heap ?sa 0)) ! nat (i - 1)) of
                  None \<Rightarrow>
                    Inr ((emit (Call_applyAll 0)
                            ((emit (Call_Error ''URL Error'' ''link URL could not be parsed'') s1)
                               \<lparr>bar_label := []\<rparr>))\<lparr>focus := FocusView 0\<rparr>)
                | Some r \<Rightarrow>
                    (case url_ResolveReference ex_env (url_Parse ex_env (Url (page (heap ?sa 0)))) r of
                       None \<Rightarrow> Inl NilPointerDereference
                     | Some v \<Rightarrow> URL ex_env (url_String ex_env v) s1))"
    using open_in_new_tab_cases [OF t0 p0 assms(2) r0, of ex_env] by blast
  have vals: "tabs ?sa = [0]" "next_ptr ?sa = 1" "NumTabs ?sa = 1"
      "fetches (trace ?sa) = []" "notices (trace ?sa) = []"
    by (simp_all add: ex_state_more ex_state_facts)
  have pg: "page (heap ?sa 0) = ex_page u ls"
    by (simp add: ex_state_more)
  show ?thesis
    using s1 op enter
    by (intro exI [of _ s1]) (simp add: vals pg ex_env_url ex_state_more ex_state_facts cong: option.case_cong)
qed

theorem Enter_new_unparsable_counterexample:
  "Atoi ''3'' = Some 3
   \<and> (\<exists>s'. DoneFunc ex_env KeyEnter
             (ex_state [ex_tab ''gemini://host/a/b'' [''l1'', ''l2'', '':broken'']] 0 ''new:3'') = Inr s'
        \<and> tabs s' = [0, 1]
        \<and> fetches (trace s') = []
        \<and> notices (trace s') = [(''URL Error'', ''link URL could not be parsed'')])"
proof -
  have bad: "ex_Parse '':broken'' = None" by code_simp
  have "\<exists>s'. DoneFunc ex_env KeyEnter
             (ex_state [ex_tab ''gemini://host/a/b'' [''l1'', ''l2'', '':broken'']] 0 (''new:'' @ ''3'')) = Inr s'
        \<and> tabs s' = [0, 1]
        \<and> fetches (trace s') = []
        \<and> notices (trace s') = [(''URL Error'', ''link URL could not be parsed'')]"
    using ex_new_tab_branch [OF Atoi_examples(1) _ _ refl, of "[''l1'', ''l2'', '':broken'']"
        "''gemini://host/a/b''"] bad
    by (auto simp add: emit_def)
  then show ?thesis using Atoi_examples(1) by simp
qed

subsection \<open>Links and page URLs that do not parse\<close>

text \<open>
  In the new-tab branch (\<open>new:\<close> followed by a link number of the page), a link
  that \<open>url.Parse\<close> rejects is reported: the handler shows the notice \<open>URL Error\<close>,
  resets the bottom bar and starts no fetch, whether the URL of the page parses or
  not.
\<close>

lemma Enter_new_unparsable_link_notice:
  assumes "tab_at s (curTab s) = Inr t" and "bar_text s = ''new:'' @ n" and "Atoi n = Some i"
    and "next_ptr s \<noteq> t"
    and "1 \<le> i" and "i \<le> int (length (Links (page (heap s t))))"
    and "url_Parse env (Links (page (heap s t)) ! nat (i - 1)) = None"
  shows "\<exists>s'. DoneFunc env KeyEnter s = Inr s'
           \<and> notices (trace s')
               = notices (trace s) @ [(''URL Error'', ''link URL could not be parsed'')]
           \<and> fetches (trace s') = fetches (trace s)
           \<and> bar_label s' = [] \<and> focus s' = FocusView t"
proof -
  let ?sa = "emit (Call_saveScroll t) s"
  have ta: "tab_at ?sa (curTab ?sa) = Inr t"
    using assms(1) by simp
  have pa: "next_ptr ?sa \<noteq> t"
    using assms(4) by simp
  have ra: "0 < i" "i \<le> int (length (Links (page (heap ?sa t))))"
    using assms(5,6) by simp_all
  obtain s1 where s1: "fetches (trace s1) = fetches (trace ?sa)"
      "notices (trace s1) = notices (trace ?sa)"
    and op: "open_in_new_tab env (curTab ?sa) i ?sa =
               (case url_Parse env (Links (page (heap ?sa t)) ! nat (i - 1)) of
                  None \<Rightarrow>
                    Inr ((emit (Call_applyAll t)
                            ((emit (Call_Error ''URL Error'' ''link URL could not be parsed'') s1)
                               \<lparr>bar_label := []\<rparr>))\<lparr>focus := FocusView t\<rparr>)
                | Some r \<Rightarrow>
                    (case url_ResolveReference env (url_Parse env (Url (page (heap ?sa t)))) r of
                       None \<Rightarrow> Inl NilPointerDereference
                     | Some v \<Rightarrow> URL env (url_String env v) s1))"
    using open_in_new_tab_cases [OF ta pa ra, of env] by blast
  have "DoneFunc env KeyEnter s = open_in_new_tab env (curTab ?sa) i ?sa"
    using Enter_new_number [OF assms(1-3), of env] assms(5,6) by simp
  also have "\<dots> = Inr ((emit (Call_applyAll t)
                            ((emit (Call_Error ''URL Error'' ''link URL could not be parsed'') s1)
                               \<lparr>bar_label := []\<rparr>))\<lparr>focus := FocusView t\<rparr>)"
    using op assms(7) by simp
  finally show ?thesis
    using s1 by (simp add: emit_def)
qed

lemma Enter_new_unparsable_link_notice_example:
  "\<exists>s'. DoneFunc ex_env KeyEnter (ex_state [ex_tab ''gemini://host/a/b'' [''1:2'']] 0 ''new:1'') = Inr s'
     \<and> notices (trace s') = [(''URL Error'', ''link URL could not be parsed'')]
     \<and> fetches (trace s') = []
     \<and> bar_label s' = [] \<and> focus s' = FocusView 0"
proof -
  let ?s = "ex_state [ex_tab ''gemini://host/a/b'' [''1:2'']] 0 ''new:1''"
  have b: "bar_text ?s = ''new:'' @ ''1''"
    by (simp add: ex_state_facts)
  have p: "next_ptr ?s \<noteq> 0"
    by (simp add: ex_state_more)
  have r: "(1::int) \<le> 1" "1 \<le> int (length (Links (page (heap ?s 0))))"
    by (simp_all add: ex_state_more)
  have bad: "ex_Parse ''1:2'' = None"
    by code_simp
  have u: "url_Parse ex_env (Links (page (heap ?s 0)) ! nat (1 - 1)) = None"
    by (simp add: ex_state_more ex_env_url bad)
  show ?thesis
    using Enter_new_unparsable_link_notice [OF ex_tab_at b Atoi_examples(2) p r u]
    by (simp add: ex_state_facts)
qed



subsection \<open>\<open>Reload\<close> and fetches that complete\<close>

lemma handleURL_fields [simp]:
  "page (handleURL env t u) = fetch env u" "history (handleURL env t u) = history t"
  "mode (handleURL env t u) = tabModeDone"
  by (simp_all add: handleURL_def)

lemma History_append_neq: "History_append u h \<noteq> h"
proof
  assume eq: "History_append u h = h"
  let ?es = "if pos h < int (length (urls h)) - 1 then take (nat (pos h + 1)) (urls h) else urls h"
  have u: "urls (History_append u h) = ?es @ [u]" and p: "pos (History_append u h) = int (length ?es)"
    by (simp_all add: History_append_def Let_def)
  show False
  proof (cases "pos h < int (length (urls h)) - 1")
    case True
    then have "int (length ?es) = (if 0 \<le> pos h + 1 then pos h + 1 else 0)"
      by (auto simp: min_def)
    with p eq True show False by (auto split: if_splits)
  next
    case False
    then have "length (urls (History_append u h)) = Suc (length (urls h))"
      using u by simp
    with eq show False by simp
  qed
qed

text \<open>
  \<open>SwitchTab\<close> to an index of the session: the tab at that index becomes current
  and gets the focus; the tabs themselves, the bottom bar and the fetches are as
  before.
\<close>

lemma SwitchTab_Inr:
  assumes "0 \<le> n" and "n < NumTabs s" and "0 \<le> curTab s" and "curTab s < NumTabs s"
  shows "\<exists>s'. SwitchTab n s = Inr s' \<and> curTab s' = n \<and> tabs s' = tabs s \<and> heap s' = heap s
           \<and> tab_at s' (curTab s') = Inr (tabs s ! nat n)
           \<and> bar_label s' = bar_label s \<and> bar_text s' = bar_text s
           \<and> focus s' = FocusView (tabs s ! nat n)
           \<and> fetches (trace s') = fetches (trace s)"
proof -
  have c: "clamp_tab n s = n"
    using assms(1,2) by (simp add: clamp_tab_def)
  have r: "go_rem n (NumTabs s) = n"
    using assms(1,2) by (simp add: go_rem_small)
  have old: "tab_at s (curTab s) = Inr (tabs s ! nat (curTab s))"
    using assms(3,4) by (simp add: tab_at_Inr)
  have new: "\<And>s0. tabs s0 = tabs s \<Longrightarrow> tab_at (s0\<lparr>curTab := n\<rparr>) n = Inr (tabs s ! nat n)"
    using assms(1,2) by (simp add: tab_at_def NumTabs_def)
  have ne: "tabs s \<noteq> []"
    using assms(1,2) by (auto simp: NumTabs_def)
  show ?thesis
    using assms c r old ne
      new [of "emit (Call_saveScroll (tabs s ! nat (curTab s)))
          (emit (Call_saveBottomBar (tabs s ! nat (curTab s))) s)"]
    by (simp add: SwitchTab_def Let_def NumTabs_def tab_at_def emit_def)
qed

text \<open>
  Claim C6.  The current tab \<open>t\<close> has content and its URL \<open>u\<close> parses.  \<open>Reload\<close>
  changes nothing but starts the goroutine.  Run without interruption, the
  goroutine calls \<open>cache.RemovePage\<close> on \<open>u\<close>, \<open>cache.RemoveFavicon\<close> on the host of
  the parsed URL and \<open>handleURL\<close> on \<open>t\<close> and \<open>u\<close>, and then restores the bottom bar;
  it starts no \<open>goURL\<close>.  The tab \<open>t\<close> gets the fetched page, and the history of
  every tab is the same after the reload as before.  A navigation to \<open>u\<close> with
  \<open>URL\<close> starts \<open>goURL\<close> instead, which also gives \<open>t\<close> the fetched page but
  appends \<open>u\<close> to the history of \<open>t\<close>, so that history is not the same as before.
\<close>

theorem Reload_evicts_and_keeps_history:
  assumes "tab_at s (curTab s) = Inr t" and "hasContent env (heap s t)"
    and "url_Parse env (Url (page (heap s t))) = Some parsed"
    and "u = Url (page (heap s t))"
  shows "\<exists>s'. Reload env s = Inr (emit (Go_Reload t (Some parsed)) s)
           \<and> Reload_go env t (Some parsed) (emit (Go_Reload t (Some parsed)) s) = Inr s'
           \<and> trace s' = trace s @
                [Go_Reload t (Some parsed), cache_RemovePage u, cache_RemoveFavicon (Host parsed),
                 Call_handleURL t u, Call_applyBottomBar t]
           \<and> fetches (trace s') = fetches (trace s)
           \<and> tabs s' = tabs s \<and> curTab s' = curTab s
           \<and> page (heap s' t) = fetch env u
           \<and> (\<forall>p. history (heap s' p) = history (heap s p))
           \<and> (\<forall>p. p \<noteq> t \<longrightarrow> heap s' p = heap s p)
           \<and> (\<not> HasPrefix u ''about:'' \<longrightarrow>
                (\<exists>s''. URL env u s = Inr (emit (Go_goURL t u) s)
                   \<and> goURL_done env t u (emit (Go_goURL t u) s) = Inr s''
                   \<and> page (heap s'' t) = fetch env u
                   \<and> history (heap s'' t) = History_append u (history (heap s t))
                   \<and> history (heap s'' t) \<noteq> history (heap s t)))"
proof -
  let ?s1 = "emit (Go_Reload t (Some parsed)) s"
  have r: "Reload env s = Inr ?s1"
    using assms(1-3) by (simp add: Reload_def)
  have f: "Reload_go_fetch t (Some parsed) ?s1 =
      Inr (u, emit (Call_handleURL t u)
                (emit (cache_RemoveFavicon (Host parsed)) (emit (cache_RemovePage u) ?s1)))"
    using assms(1,4) by (simp add: Reload_go_fetch_def Let_def)
  let ?s2 = "emit (Call_handleURL t u)
                (emit (cache_RemoveFavicon (Host parsed)) (emit (cache_RemovePage u) ?s1))"
  have d: "Reload_go_done env t u ?s2 =
      Inr (emit (Call_applyBottomBar t) (upd_tab t (\<lambda>x. handleURL env x u) ?s2))"
    using assms(1) by (simp add: Reload_go_done_def Let_def)
  let ?s3 = "emit (Call_applyBottomBar t) (upd_tab t (\<lambda>x. handleURL env x u) ?s2)"
  have g: "Reload_go env t (Some parsed) ?s1 = Inr ?s3"
    using f d by (simp add: Reload_go_def)
  have rel: "trace ?s3 = trace s @
                [Go_Reload t (Some parsed), cache_RemovePage u, cache_RemoveFavicon (Host parsed),
                 Call_handleURL t u, Call_applyBottomBar t]"
      "fetches (trace ?s3) = fetches (trace s)" "tabs ?s3 = tabs s" "curTab ?s3 = curTab s"
      "page (heap ?s3 t) = fetch env u" "\<forall>p. history (heap ?s3 p) = history (heap s p)"
      "\<forall>p. p \<noteq> t \<longrightarrow> heap ?s3 p = heap s p"
    by simp_all
  have nav: "\<exists>s''. URL env u s = Inr (emit (Go_goURL t u) s)
                   \<and> goURL_done env t u (emit (Go_goURL t u) s) = Inr s''
                   \<and> page (heap s'' t) = fetch env u
                   \<and> history (heap s'' t) = History_append u (history (heap s t))
                   \<and> history (heap s'' t) \<noteq> history (heap s t)"
    if "\<not> HasPrefix u ''about:''"
    using URL_fetch [OF assms(1) that, of env] assms(1) History_append_neq [of u "history (heap s t)"]
    by (simp add: goURL_done_def Let_def)
  from r g rel nav show ?thesis by blast
qed

theorem Reload_evicts_and_keeps_history_witness:
  "(\<exists>s'. Reload_go ex_env 0 (Some (ex_url ''/test''))
           (emit (Go_Reload 0 (Some (ex_url ''/test''))) (ex_view_state [ex_tab ''gemini://host/test'' []] 0))
         = Inr s'
     \<and> trace s' = [Go_Reload 0 (Some (ex_url ''/test'')), cache_RemovePage ''gemini://host/test'',
           cache_RemoveFavicon ''host'', Call_handleURL 0 ''gemini://host/test'',
           Call_applyBottomBar 0]
     \<and> Content (page (heap s' 0)) = ''fetched''
     \<and> history (heap s' 0) = \<lparr>urls = [''gemini://host/test''], pos = 0\<rparr>)
   \<and> (\<exists>s''. goURL_done ex_env 0 ''gemini://host/test''
           (emit (Go_goURL 0 ''gemini://host/test'') (ex_view_state [ex_tab ''gemini://host/test'' []] 0))
         = Inr s''
     \<and> history (heap s'' 0) = \<lparr>urls = [''gemini://host/test'', ''gemini://host/test''], pos = 1\<rparr>)"
proof -
  let ?s = "ex_view_state [ex_tab ''gemini://host/test'' []] 0"
  let ?u = "''gemini://host/test''"
  have t: "tab_at ?s (curTab ?s) = Inr 0"
    by (simp add: tab_at_def NumTabs_def ex_state_def ex_view_state_def)
  have pg: "heap ?s 0 = ex_tab ?u []" "trace ?s = []"
    by (simp_all add: ex_state_def ex_view_state_def)
  have c: "hasContent ex_env (heap ?s 0)"
    unfolding pg by code_simp
  have p: "url_Parse ex_env (Url (page (heap ?s 0))) = Some (ex_url ''/test'')"
    by (simp add: pg ex_state_more ex_env_url ex_Parse_examples)
  have u: "?u = Url (page (heap ?s 0))"
    by (simp add: pg ex_state_more)
  have host: "Host (ex_url ''/test'') = ''host''"
    by (simp add: ex_url_def)
  have hist: "history (ex_tab ?u []) = \<lparr>urls = [?u], pos = 0\<rparr>"
    by (simp add: ex_tab_def)
  have app: "History_append ?u \<lparr>urls = [?u], pos = 0\<rparr> = \<lparr>urls = [?u, ?u], pos = 1\<rparr>"
    by (simp add: History_append_def)
  have f: "Content (fetch ex_env ?u) = ''fetched''"
    by (simp add: ex_env_def)
  have n: "\<not> HasPrefix ?u ''about:''"
    by code_simp
  from Reload_evicts_and_keeps_history [OF t c p u]
  obtain s' where s': "Reload_go ex_env 0 (Some (ex_url ''/test''))
        (emit (Go_Reload 0 (Some (ex_url ''/test''))) ?s) = Inr s'"
      "trace s' = trace ?s @
                [Go_Reload 0 (Some (ex_url ''/test'')), cache_RemovePage ?u,
                 cache_RemoveFavicon (Host (ex_url ''/test'')),
                 Call_handleURL 0 ?u, Call_applyBottomBar 0]"
      "page (heap s' 0) = fetch ex_env ?u"
      "\<forall>p. history (heap s' p) = history (heap ?s p)"
      and nav: "\<not> HasPrefix ?u ''about:'' \<longrightarrow>
                (\<exists>s''. URL ex_env ?u ?s = Inr (emit (Go_goURL 0 ?u) ?s)
                   \<and> goURL_done ex_env 0 ?u (emit (Go_goURL 0 ?u) ?s) = Inr s''
                   \<and> page (heap s'' 0) = fetch ex_env ?u
                   \<and> history (heap s'' 0) = History_append ?u (history (heap ?s 0))
                   \<and> history (heap s'' 0) \<noteq> history (heap ?s 0))"
    by blast
  from s'(4) have h: "history (heap s' 0) = history (heap ?s 0)" by blast
  have w1: "\<exists>s'. Reload_go ex_env 0 (Some (ex_url ''/test''))
           (emit (Go_Reload 0 (Some (ex_url ''/test''))) ?s) = Inr s'
     \<and> trace s' = [Go_Reload 0 (Some (ex_url ''/test'')), cache_RemovePage ?u,
           cache_RemoveFavicon ''host'', Call_handleURL 0 ?u, Call_applyBottomBar 0]
     \<and> Content (page (heap s' 0)) = ''fetched''
     \<and> history (heap s' 0) = \<lparr>urls = [?u], pos = 0\<rparr>"
    using s'(1-3) h by (simp add: pg host hist f)
  from nav n obtain s'' where "goURL_done ex_env 0 ?u (emit (Go_goURL 0 ?u) ?s) = Inr s''"
      "history (heap s'' 0) = History_append ?u (history (heap ?s 0))"
    by blast
  then have w2: "\<exists>s''. goURL_done ex_env 0 ?u (emit (Go_goURL 0 ?u) ?s) = Inr s''
     \<and> history (heap s'' 0) = \<lparr>urls = [?u, ?u], pos = 1\<rparr>"
    by (simp add: pg hist app)
  from w1 w2 show ?thesis by simp
qed

text \<open>
  Claim C7.  A fetch is issued for the current tab \<open>a\<close>, and before it completes
  \<open>SwitchTab\<close> makes another tab \<open>b\<close> current.  For a navigation with \<open>URL\<close> the
  completion gives \<open>a\<close> the fetched page and appends the URL to the history of
  \<open>a\<close>; for a \<open>Reload\<close> it gives \<open>a\<close> the fetched page.  In both cases the completion
  makes no call, so \<open>applyBottomBar\<close> is not run, and the label and text of the
  bottom bar, the focus on \<open>b\<close>, the current index and the other tabs are as
  \<open>SwitchTab\<close> left them.  When \<open>a\<close> is still current at completion, the bottom bar is
  restored with \<open>applyBottomBar\<close> on \<open>a\<close>.
\<close>

theorem fetch_completes_after_switching_away:
  assumes "tab_at s (curTab s) = Inr a" and "0 \<le> n" and "n < NumTabs s"
    and "tabs s ! nat n = b" and "b \<noteq> a"
  shows "(\<not> HasPrefix u ''about:'' \<longrightarrow>
           (\<exists>s1 s2 s3 s4. URL env u s = Inr s1
              \<and> fetches (trace s1) = fetches (trace s) @ [(a, u)]
              \<and> SwitchTab n s1 = Inr s2 \<and> tab_at s2 (curTab s2) = Inr b
              \<and> goURL_done env a u s2 = Inr s3
              \<and> page (heap s3 a) = fetch env u
              \<and> history (heap s3 a) = History_append u (history (heap s a))
              \<and> (\<forall>p. p \<noteq> a \<longrightarrow> heap s3 p = heap s p)
              \<and> trace s3 = trace s2
              \<and> bar_label s3 = bar_label s2 \<and> bar_text s3 = bar_text s2
              \<and> focus s3 = FocusView b \<and> curTab s3 = n \<and> tabs s3 = tabs s
              \<and> goURL_done env a u s1 = Inr s4
              \<and> trace s4 = trace s1 @ [Call_applyBottomBar a]))
       \<and> (hasContent env (heap s a) \<and> url_Parse env (Url (page (heap s a))) = Some parsed \<longrightarrow>
           (\<exists>s1 s2 s3 s4 s5. Reload env s = Inr s1
              \<and> Reload_go_fetch a (Some parsed) s1 = Inr (Url (page (heap s a)), s2)
              \<and> SwitchTab n s2 = Inr s3 \<and> tab_at s3 (curTab s3) = Inr b
              \<and> Reload_go_done env a (Url (page (heap s a))) s3 = Inr s4
              \<and> page (heap s4 a) = fetch env (Url (page (heap s a)))
              \<and> history (heap s4 a) = history (heap s a)
              \<and> (\<forall>p. p \<noteq> a \<longrightarrow> heap s4 p = heap s p)
              \<and> trace s4 = trace s3
              \<and> bar_label s4 = bar_label s3 \<and> bar_text s4 = bar_text s3
              \<and> focus s4 = FocusView b \<and> curTab s4 = n \<and> tabs s4 = tabs s
              \<and> Reload_go_done env a (Url (page (heap s a))) s2 = Inr s5
              \<and> trace s5 = trace s2 @ [Call_applyBottomBar a]))"
proof (intro conjI impI)
  have cur: "0 \<le> curTab s" "curTab s < NumTabs s"
    using assms(1) by (auto simp: tab_at_def split: if_splits)
  {
    assume nab: "\<not> HasPrefix u ''about:''"
    let ?s1 = "emit (Go_goURL a u) s"
    have u1: "URL env u s = Inr ?s1"
      using URL_fetch [OF assms(1) nab] .
    have t1: "tab_at ?s1 (curTab ?s1) = Inr a"
      using assms(1) by simp
    obtain s2 where s2: "SwitchTab n ?s1 = Inr s2" "curTab s2 = n" "tabs s2 = tabs ?s1"
        "heap s2 = heap ?s1" "tab_at s2 (curTab s2) = Inr (tabs ?s1 ! nat n)"
        "focus s2 = FocusView (tabs ?s1 ! nat n)"
      using SwitchTab_Inr [of n ?s1] assms(2,3) cur by auto
    have tb: "tab_at s2 (curTab s2) = Inr b"
      using s2(5) assms(4) by simp
    let ?s3 = "upd_tab a (\<lambda>x. x\<lparr>history := History_append u (history x)\<rparr>)
                 (upd_tab a (\<lambda>x. handleURL env x u) s2)"
    have d3: "goURL_done env a u s2 = Inr ?s3"
      using tb assms(5) by (simp add: goURL_done_def Let_def)
    let ?s4 = "emit (Call_applyBottomBar a)
                 (upd_tab a (\<lambda>x. x\<lparr>history := History_append u (history x)\<rparr>)
                    (upd_tab a (\<lambda>x. handleURL env x u) ?s1))"
    have d4: "goURL_done env a u ?s1 = Inr ?s4"
      using t1 by (simp add: goURL_done_def Let_def)
    have "URL env u s = Inr ?s1
              \<and> fetches (trace ?s1) = fetches (trace s) @ [(a, u)]
              \<and> SwitchTab n ?s1 = Inr s2 \<and> tab_at s2 (curTab s2) = Inr b
              \<and> goURL_done env a u s2 = Inr ?s3
              \<and> page (heap ?s3 a) = fetch env u
              \<and> history (heap ?s3 a) = History_append u (history (heap s a))
              \<and> (\<forall>p. p \<noteq> a \<longrightarrow> heap ?s3 p = heap s p)
              \<and> trace ?s3 = trace s2
              \<and> bar_label ?s3 = bar_label s2 \<and> bar_text ?s3 = bar_text s2
              \<and> focus ?s3 = FocusView b \<and> curTab ?s3 = n \<and> tabs ?s3 = tabs s
              \<and> goURL_done env a u ?s1 = Inr ?s4
              \<and> trace ?s4 = trace ?s1 @ [Call_applyBottomBar a]"
      using u1 s2 tb d3 d4 assms(4) by simp
    then show "\<exists>s1 s2 s3 s4. URL env u s = Inr s1
              \<and> fetches (trace s1) = fetches (trace s) @ [(a, u)]
              \<and> SwitchTab n s1 = Inr s2 \<and> tab_at s2 (curTab s2) = Inr b
              \<and> goURL_done env a u s2 = Inr s3
              \<and> page (heap s3 a) = fetch env u
              \<and> history (heap s3 a) = History_append u (history (heap s a))
              \<and> (\<forall>p. p \<noteq> a \<longrightarrow> heap s3 p = heap s p)
              \<and> trace s3 = trace s2
              \<and> bar_label s3 = bar_label s2 \<and> bar_text s3 = bar_text s2
              \<and> focus s3 = FocusView b \<and> curTab s3 = n \<and> tabs s3 = tabs s
              \<and> goURL_done env a u s1 = Inr s4
              \<and> trace s4 = trace s1 @ [Call_applyBottomBar a]"
      by blast
  }
  {
    assume rl: "hasContent env (heap s a) \<and> url_Parse env (Url (page (heap s a))) = Some parsed"
    let ?u = "Url (page (heap s a))"
    let ?s1 = "emit (Go_Reload a (Some parsed)) s"
    let ?s2 = "emit (Call_handleURL a ?u)
                (emit (cache_RemoveFavicon (Host parsed)) (emit (cache_RemovePage ?u) ?s1))"
    have r1: "Reload env s = Inr ?s1"
      using assms(1) rl by (simp add: Reload_def)
    have f2: "Reload_go_fetch a (Some parsed) ?s1 = Inr (?u, ?s2)"
      using assms(1) by (simp add: Reload_go_fetch_def Let_def)
    have t2: "tab_at ?s2 (curTab ?s2) = Inr a"
      using assms(1) by simp
    obtain s3 where s3: "SwitchTab n ?s2 = Inr s3" "curTab s3 = n" "tabs s3 = tabs ?s2"
        "heap s3 = heap ?s2" "tab_at s3 (curTab s3) = Inr (tabs ?s2 ! nat n)"
        "focus s3 = FocusView (tabs ?s2 ! nat n)"
      using SwitchTab_Inr [of n ?s2] assms(2,3) cur by auto
    have tb: "tab_at s3 (curTab s3) = Inr b"
      using s3(5) assms(4) by simp
    let ?s4 = "upd_tab a (\<lambda>x. handleURL env x ?u) s3"
    have d4: "Reload_go_done env a ?u s3 = Inr ?s4"
      using tb assms(5) by (simp add: Reload_go_done_def Let_def)
    let ?s5 = "emit (Call_applyBottomBar a) (upd_tab a (\<lambda>x. handleURL env x ?u) ?s2)"
    have d5: "Reload_go_done env a ?u ?s2 = Inr ?s5"
      using t2 by (simp add: Reload_go_done_def Let_def)
    have "Reload env s = Inr ?s1
              \<and> Reload_go_fetch a (Some parsed) ?s1 = Inr (?u, ?s2)
              \<and> SwitchTab n ?s2 = Inr s3 \<and> tab_at s3 (curTab s3) = Inr b
              \<and> Reload_go_done env a ?u s3 = Inr ?s4
              \<and> page (heap ?s4 a) = fetch env ?u
              \<and> history (heap ?s4 a) = history (heap s a)
              \<and> (\<forall>p. p \<noteq> a \<longrightarrow> heap ?s4 p = heap s p)
              \<and> trace ?s4 = trace s3
              \<and> bar_label ?s4 = bar_label s3 \<and> bar_text ?s4 = bar_text s3
              \<and> focus ?s4 = FocusView b \<and> curTab ?s4 = n \<and> tabs ?s4 = tabs s
              \<and> Reload_go_done env a ?u ?s2 = Inr ?s5
              \<and> trace ?s5 = trace ?s2 @ [Call_applyBottomBar a]"
      using r1 f2 s3 tb d4 d5 assms(4) by simp
    then show "\<exists>s1 s2 s3 s4 s5. Reload env s = Inr s1
              \<and> Reload_go_fetch a (Some parsed) s1 = Inr (?u, s2)
              \<and> SwitchTab n s2 = Inr s3 \<and> tab_at s3 (curTab s3) = Inr b
              \<and> Reload_go_done env a ?u s3 = Inr s4
              \<and> page (heap s4 a) = fetch env ?u
              \<and> history (heap s4 a) = history (heap s a)
              \<and> (\<forall>p. p \<noteq> a \<longrightarrow> heap s4 p = heap s p)
              \<and> trace s4 = trace s3
              \<and> bar_label s4 = bar_label s3 \<and> bar_text s4 = bar_text s3
              \<and> focus s4 = FocusView b \<and> curTab s4 = n \<and> tabs s4 = tabs s
              \<and> Reload_go_done env a ?u s2 = Inr s5
              \<and> trace s5 = trace s2 @ [Call_applyBottomBar a]"
      by blast
  }
qed

theorem fetch_completes_after_switching_away_witness:
  "(\<exists>s1 s2 s3. URL ex_env ''gemini://host/next''
                  (ex_view_state [ex_tab ''gemini://host/a'' [], ex_tab ''gemini://host/b'' []] 0) = Inr s1
       \<and> SwitchTab 1 s1 = Inr s2
       \<and> goURL_done ex_env 0 ''gemini://host/next'' s2 = Inr s3
       \<and> Content (page (heap s3 0)) = ''fetched''
       \<and> history (heap s3 0) = \<lparr>urls = [''gemini://host/a'', ''gemini://host/next''], pos = 1\<rparr>
       \<and> trace s3 = trace s2 \<and> bar_label s3 = bar_label s2 \<and> bar_text s3 = bar_text s2
       \<and> focus s3 = FocusView 1 \<and> curTab s3 = 1)
   \<and> (\<exists>s1 s2 s3 s4. Reload ex_env
                  (ex_view_state [ex_tab ''gemini://host/a'' [], ex_tab ''gemini://host/b'' []] 0) = Inr s1
       \<and> Reload_go_fetch 0 (Some (ex_url ''/a'')) s1 = Inr (''gemini://host/a'', s2)
       \<and> SwitchTab 1 s2 = Inr s3
       \<and> Reload_go_done ex_env 0 ''gemini://host/a'' s3 = Inr s4
       \<and> Content (page (heap s4 0)) = ''fetched''
       \<and> history (heap s4 0) = \<lparr>urls = [''gemini://host/a''], pos = 0\<rparr>
       \<and> trace s4 = trace s3 \<and> bar_label s4 = bar_label s3 \<and> bar_text s4 = bar_text s3
       \<and> focus s4 = FocusView 1 \<and> curTab s4 = 1)"
proof -
  let ?s = "ex_view_state [ex_tab ''gemini://host/a'' [], ex_tab ''gemini://host/b'' []] 0"
  let ?u = "''gemini://host/next''" and ?a = "''gemini://host/a''"
  have t: "tab_at ?s (curTab ?s) = Inr 0"
    by (simp add: tab_at_def NumTabs_def ex_state_def ex_view_state_def)
  have n: "(0::int) \<le> 1" "1 < NumTabs ?s" "tabs ?s ! nat 1 = 1" "(1::nat) \<noteq> 0"
    by (simp_all add: NumTabs_def ex_state_def ex_view_state_def)
  have hp: "heap ?s 0 = ex_tab ?a []"
    by (simp add: ex_state_def ex_view_state_def)
  have tb: "page (ex_tab ?a []) = ex_page ?a []" "history (ex_tab ?a []) = \<lparr>urls = [?a], pos = 0\<rparr>"
      "Url (ex_page ?a []) = ?a"
    by (simp_all add: ex_tab_def ex_page_def)
  have app: "History_append ?u \<lparr>urls = [?a], pos = 0\<rparr> = \<lparr>urls = [?a, ?u], pos = 1\<rparr>"
    by (simp add: History_append_def)
  have f: "Content (fetch ex_env x) = ''fetched''" for x
    by (simp add: ex_env_def)
  have nab: "\<not> HasPrefix ?u ''about:''"
    by code_simp
  have c: "hasContent ex_env (heap ?s 0) \<and> url_Parse ex_env (Url (page (heap ?s 0))) = Some (ex_url ''/a'')"
  proof -
    have "hasContent ex_env (ex_tab ?a [])" by code_simp
    moreover have "ex_Parse ?a = Some (ex_url ''/a'')" by code_simp
    ultimately show ?thesis by (simp add: hp tb ex_env_url)
  qed
  note th = fetch_completes_after_switching_away [OF t n, where env = ex_env]
  from th [THEN conjunct1, rule_format, OF nab]
  obtain s1 s2 s3 s4 where h1: "URL ex_env ?u ?s = Inr s1
              \<and> fetches (trace s1) = fetches (trace ?s) @ [(0, ?u)]
              \<and> SwitchTab 1 s1 = Inr s2 \<and> tab_at s2 (curTab s2) = Inr 1
              \<and> goURL_done ex_env 0 ?u s2 = Inr s3
              \<and> page (heap s3 0) = fetch ex_env ?u
              \<and> history (heap s3 0) = History_append ?u (history (heap ?s 0))
              \<and> (\<forall>p. p \<noteq> 0 \<longrightarrow> heap s3 p = heap ?s p)
              \<and> trace s3 = trace s2
              \<and> bar_label s3 = bar_label s2 \<and> bar_text s3 = bar_text s2
              \<and> focus s3 = FocusView 1 \<and> curTab s3 = 1 \<and> tabs s3 = tabs ?s
              \<and> goURL_done ex_env 0 ?u s1 = Inr s4
              \<and> trace s4 = trace s1 @ [Call_applyBottomBar 0]"
    by (elim exE) (rule that)
  have w1: "\<exists>s1 s2 s3. URL ex_env ?u ?s = Inr s1
       \<and> SwitchTab 1 s1 = Inr s2
       \<and> goURL_done ex_env 0 ?u s2 = Inr s3
       \<and> Content (page (heap s3 0)) = ''fetched''
       \<and> history (heap s3 0) = \<lparr>urls = [?a, ?u], pos = 1\<rparr>
       \<and> trace s3 = trace s2 \<and> bar_label s3 = bar_label s2 \<and> bar_text s3 = bar_text s2
       \<and> focus s3 = FocusView 1 \<and> curTab s3 = 1"
    using h1 by (intro exI [of _ s1] exI [of _ s2] exI [of _ s3]) (simp add: hp tb app f)
  from th [THEN conjunct2, rule_format, OF c]
  obtain r1 r2 r3 r4 r5 where h2: "Reload ex_env ?s = Inr r1
              \<and> Reload_go_fetch 0 (Some (ex_url ''/a'')) r1 = Inr (Url (page (heap ?s 0)), r2)
              \<and> SwitchTab 1 r2 = Inr r3 \<and> tab_at r3 (curTab r3) = Inr 1
              \<and> Reload_go_done ex_env 0 (Url (page (heap ?s 0))) r3 = Inr r4
              \<and> page (heap r4 0) = fetch ex_env (Url (page (heap ?s 0)))
              \<and> history (heap r4 0) = history (heap ?s 0)
              \<and> (\<forall>p. p \<noteq> 0 \<longrightarrow> heap r4 p = heap ?s p)
              \<and> trace r4 = trace r3
              \<and> bar_label r4 = bar_label r3 \<and> bar_text r4 = bar_text r3
              \<and> focus r4 = FocusView 1 \<and> curTab r4 = 1 \<and> tabs r4 = tabs ?s
              \<and> Reload_go_done ex_env 0 (Url (page (heap ?s 0))) r2 = Inr r5
              \<and> trace r5 = trace r2 @ [Call_applyBottomBar 0]"
    by (elim exE) (rule that)
  have w2: "\<exists>s1 s2 s3 s4. Reload ex_env ?s = Inr s1
       \<and> Reload_go_fetch 0 (Some (ex_url ''/a'')) s1 = Inr (?a, s2)
       \<and> SwitchTab 1 s2 = Inr s3
       \<and> Reload_go_done ex_env 0 ?a s3 = Inr s4
       \<and> Content (page (heap s4 0)) = ''fetched''
       \<and> history (heap s4 0) = \<lparr>urls = [?a], pos = 0\<rparr>
       \<and> trace s4 = trace s3 \<and> bar_label s4 = bar_label s3 \<and> bar_text s4 = bar_text s3
       \<and> focus s4 = FocusView 1 \<and> curTab s4 = 1"
    using h2 by (intro exI [of _ r1] exI [of _ r2] exI [of _ r3] exI [of _ r4]) (simp add: hp tb f)
  from w1 w2 show ?thesis by (rule conjI)
qed

end
